theory Spec2Isabelle
  imports Main "HOL-Library.Sublist" "HOL-Library.Multiset"
begin

section \<open>Python strings\<close>

text \<open>
  A Python \<open>str\<close> is a sequence of Unicode code points and \<open>len\<close> counts code points.
  A string is therefore a list of code points, each a natural number; \<open>lit\<close> turns an
  ASCII literal into such a list.
\<close>

type_synonym pystr = "nat list"

definition lit :: "string \<Rightarrow> pystr" where
  "lit s = map of_char s"

text \<open>
  The whitespace class shared by \<open>str.strip()\<close> and by \<open>\s\<close> in a \<open>str\<close> pattern
  (both test \<open>Py_UNICODE_ISSPACE\<close>).
\<close>

definition is_space :: "nat \<Rightarrow> bool" where
  "is_space c \<longleftrightarrow>
     (9 \<le> c \<and> c \<le> 13) \<or> (28 \<le> c \<and> c \<le> 32) \<or> c = 133 \<or> c = 160 \<or> c = 5760 \<or>
     (8192 \<le> c \<and> c \<le> 8202) \<or> c = 8232 \<or> c = 8233 \<or> c = 8239 \<or> c = 8287 \<or> c = 12288"

definition lstrip :: "pystr \<Rightarrow> pystr" where
  "lstrip s = dropWhile is_space s"

definition rstrip :: "pystr \<Rightarrow> pystr" where
  "rstrip s = rev (dropWhile is_space (rev s))"

definition strip :: "pystr \<Rightarrow> pystr" where
  "strip s = rstrip (lstrip s)"

text \<open>\<open>sep.join(parts)\<close>.\<close>

fun join :: "pystr \<Rightarrow> pystr list \<Rightarrow> pystr" where
  "join sep [] = []"
| "join sep [p] = p"
| "join sep (p # r # ps) = p @ sep @ join sep (r # ps)"

text \<open>\<open>str(i)\<close> of a non-negative integer: its decimal digits.\<close>

function str_of_nat :: "nat \<Rightarrow> pystr" where
  "str_of_nat n = (if n < 10 then [48 + n] else str_of_nat (n div 10) @ [48 + n mod 10])"
  by pat_completeness auto
termination
  by (relation "measure (\<lambda>n. n)") auto

declare str_of_nat.simps [simp del]

text \<open>
  The first occurrence of a literal in a text, scanning left to right: the text before
  it and the text after it, or \<open>None\<close> when the literal does not occur.
\<close>

fun find_sub :: "'a list \<Rightarrow> 'a list \<Rightarrow> ('a list \<times> 'a list) option" where
  "find_sub needle [] = (if needle = [] then Some ([], []) else None)"
| "find_sub needle (x # xs) =
     (if prefix needle (x # xs) then Some ([], drop (length needle) (x # xs))
      else (case find_sub needle xs of
              None \<Rightarrow> None
            | Some (before, after) \<Rightarrow> Some (x # before, after)))"

text \<open>Truthiness of an optional string: \<open>None\<close> and the empty string are false.\<close>

definition truthy :: "pystr option \<Rightarrow> bool" where
  "truthy v = (case v of None \<Rightarrow> False | Some s \<Rightarrow> s \<noteq> [])"

text \<open>
  Every handler of the program is \<open>except Exception\<close>: which exception was raised
  decides nothing, it is only written to the log. Logging is not modelled.
\<close>

datatype error = Raised

section \<open>Removal of reasoning segments\<close>

definition think_open :: pystr where
  "think_open = lit ''<think>''"

definition think_close :: pystr where
  "think_close = lit ''</think>''"

text \<open>
  \<open>re.sub(r"<think>.*?</think>\s*", "", s, flags=re.DOTALL)\<close>. The scan finds the
  leftmost position where the pattern matches: the first \<open><think>\<close> that has a
  \<open></think>\<close> after it (if the first \<open><think>\<close> has none, no later one has). The lazy
  \<open>.*?\<close>, which with \<open>DOTALL\<close> matches every character, stops at the first
  \<open></think>\<close>; the greedy \<open>\s*\<close> takes the whole run of whitespace that follows and
  cannot fail. The match is replaced by the empty string and the scan goes on after it.
\<close>

function re_sub_think :: "pystr \<Rightarrow> pystr" where
  "re_sub_think s =
     (case find_sub think_open s of
        None \<Rightarrow> s
      | Some (before, after) \<Rightarrow>
          (case find_sub think_close after of
             None \<Rightarrow> s
           | Some (body, rest) \<Rightarrow> before @ re_sub_think (dropWhile is_space rest)))"
  by pat_completeness auto
termination
proof (relation "measure length")
  show "wf (measure length)" by simp
next
  fix s :: pystr and x2 x y x2a xa ya
  assume a: "find_sub think_open s = Some x2" "(x, y) = x2"
    and b: "find_sub think_close y = Some x2a" "(xa, ya) = x2a"
  have shrink: "length needle + length r \<le> length t"
    if "find_sub needle t = Some (p, r)" for needle t p r :: pystr
    using that
  proof (induction t arbitrary: p)
    case Nil
    then show ?case by (simp split: if_splits)
  next
    case (Cons c cs)
    show ?case
    proof (cases "prefix needle (c # cs)")
      case True
      then have "length needle \<le> length (c # cs)" by (rule prefix_length_le)
      with True Cons.prems show ?thesis by auto
    next
      case False
      with Cons.prems obtain p' where "find_sub needle cs = Some (p', r)"
        by (auto split: option.splits)
      from Cons.IH [OF this] show ?thesis by simp
    qed
  qed
  have "length think_open = 7" by (simp add: think_open_def lit_def)
  with a shrink [of think_open s x y] have "length y < length s" by auto
  moreover have "length ya \<le> length y" using b shrink [of think_close y xa ya] by auto
  moreover have "length (dropWhile is_space ya) \<le> length ya"
    by (rule length_dropWhile_le)
  ultimately show "(dropWhile is_space ya, s) \<in> measure length" by simp
qed

declare re_sub_think.simps [simp del]

text \<open>
  The cleaning both generation operations apply to the response text:
  \<open>re.sub(...).strip()\<close>.
\<close>

definition strip_think :: "pystr \<Rightarrow> pystr" where
  "strip_think raw = strip (re_sub_think raw)"

text \<open>
  The reading of the cleaning under which only the spans from an opening marker to its
  closing marker go, and nothing outside them: the same flat scan, left to right, that
  keeps the text after a closing marker as it is.
\<close>

function remove_spans_only :: "pystr \<Rightarrow> pystr" where
  "remove_spans_only s =
     (case find_sub think_open s of
        None \<Rightarrow> s
      | Some (before, after) \<Rightarrow>
          (case find_sub think_close after of
             None \<Rightarrow> s
           | Some (body, rest) \<Rightarrow> before @ remove_spans_only rest))"
  by pat_completeness auto
termination
proof (relation "measure length")
  show "wf (measure length)" by simp
next
  fix s :: pystr and x2 x y x2a xa ya
  assume a: "find_sub think_open s = Some x2" "(x, y) = x2"
    and b: "find_sub think_close y = Some x2a" "(xa, ya) = x2a"
  have shrink: "length needle + length r \<le> length t"
    if "find_sub needle t = Some (p, r)" for needle t p r :: pystr
    using that
  proof (induction t arbitrary: p)
    case Nil
    then show ?case by (simp split: if_splits)
  next
    case (Cons c cs)
    show ?case
    proof (cases "prefix needle (c # cs)")
      case True
      then have "length needle \<le> length (c # cs)" by (rule prefix_length_le)
      with True Cons.prems show ?thesis by auto
    next
      case False
      with Cons.prems obtain p' where "find_sub needle cs = Some (p', r)"
        by (auto split: option.splits)
      from Cons.IH [OF this] show ?thesis by simp
    qed
  qed
  have "length think_open = 7" by (simp add: think_open_def lit_def)
  with a shrink [of think_open s x y] have "length y < length s" by auto
  moreover have "length ya \<le> length y" using b shrink [of think_close y xa ya] by auto
  ultimately show "(ya, s) \<in> measure length" by simp
qed

declare remove_spans_only.simps [simp del]

text \<open>
  Whether a text holds a complete segment: an opening marker with a closing marker
  somewhere after it.
\<close>

definition has_segment :: "pystr \<Rightarrow> bool" where
  "has_segment s =
     (case find_sub think_open s of
        None \<Rightarrow> False
      | Some (before, after) \<Rightarrow> find_sub think_close after \<noteq> None)"

text \<open>
  Whether somewhere in a text an opening marker comes right after a non-empty proper
  beginning of the opening marker, as in \<open><thi<think>\<close>.
\<close>

definition splices_open :: "pystr \<Rightarrow> bool" where
  "splices_open s =
     list_ex (\<lambda>j. sublist (take j think_open @ think_open) s) [1..<length think_open]"

section \<open>The prompt templates\<close>

text \<open>
  The literal text of \<open>prompt_template\<close> and \<open>prompt_template_image\<close>, cut at their
  placeholders. Characters outside the letters, digits and plain punctuation are given
  by code point (10 is the newline, 34 the double quote, 39 the apostrophe).
\<close>

definition prompt_template_head :: pystr where
  "prompt_template_head =
     [10] @
     lit ''You are '' @
     [34] @
     lit ''Back to Basic,'' @
     [34] @
     lit '' the AI personality behind a popular social media account on X (former'' @
     lit ''ly Twitter).'' @
     [10] @
     lit ''Your mission is to take current news articles and transform them into '' @
     lit ''highly engaging, super-simplified explanations for a general audience.'' @
     lit '' You'' @
     [39] @
     lit ''re the knowledgeable yet approachable friend who breaks down complex s'' @
     lit ''tuff so anyone can get it, often with a relatable hook or a touch of l'' @
     lit ''ightheartedness.'' @
     [10, 10] @
     lit ''**Core '' @
     [34] @
     lit ''Back to Basic'' @
     [34] @
     lit '' Style Mandate:**'' @
     [10] @
     lit ''(Mandate points 1-9 as before...)'' @
     [10] @
     lit ''1.  **Hook '' @
     [39] @
     lit ''Em Early:** Often start with a direct question (e.g., '' @
     [34] @
     lit ''What'' @
     [39] @
     lit ''s happening with X?'' @
     [34] @
     lit '', '' @
     [34] @
     lit ''So, what'' @
     [39] @
     lit ''s the deal with Y? '' @
     [63743, 252, 167, 238, 34] @
     lit '') or a very brief, attention-grabbing statement about the news.'' @
     [10] @
     lit ''2.  **Ultra-Simplicity:** Explain the core news as if you'' @
     [39] @
     lit ''re talking to someone smart but completely unfamiliar with the topic. '' @
     lit ''Define key terms or players if necessary (e.g., '' @
     [34] @
     lit ''The Federal Reserve ('' @
     [39] @
     lit ''the Fed'' @
     [39] @
     lit '') is America'' @
     [39] @
     lit ''s central bank.'' @
     [34] @
     lit '').'' @
     [10] @
     lit ''3.  **'' @
     [34] @
     lit ''Why it Matters'' @
     [34] @
     lit '' / '' @
     [34] @
     lit ''The Gist'' @
     [34] @
     lit '':** Crucially, explain *why* this news is important or relevant to the'' @
     lit '' average person. How does it affect them or the world?'' @
     [10] @
     lit ''4.  **Context is Key (Briefly!):** Provide just enough backstory or co'' @
     lit ''ntext to make the current event understandable (e.g., '' @
     [34] @
     lit ''For the past year or so, the Fed has been raising interest rates...'' @
     [34] @
     lit '').'' @
     [10] @
     lit ''5.  **Anticipate Follow-up Questions:** Think about what a curious rea'' @
     lit ''der would ask next and try to address it concisely (e.g., '' @
     [34] @
     lit ''What investors are really listening for:'' @
     [34] @
     lit '', '' @
     [34] @
     lit ''Why are rate cuts often seen as positive?'' @
     [34] @
     lit '').'' @
     [10] @
     lit ''6.  **Conversational & Engaging Tone:** Use a friendly, approachable, '' @
     lit ''and conversational voice. A touch of humor or a relatable analogy is g'' @
     lit ''reat where appropriate, but clarity is paramount. Avoid dry, academic,'' @
     lit '' or overly formal language.'' @
     [10] @
     lit ''7.  **Visual Appeal & X-Native:**'' @
     [10] @
     lit ''    *   **Emojis:** Use relevant emojis strategically to add personali'' @
     lit ''ty and break up text ('' @
     [63743, 252, 236, 224] @
     lit '', '' @
     [63743, 252, 167, 238] @
     lit '', '' @
     [63743, 252, 229, 231] @
     lit '').'' @
     [10] @
     lit ''    *   **Hashtags:** ALWAYS include the signature '' @
     [96] @
     lit ''#BackToBasic'' @
     [96] @
     lit ''. Consider 1-2 other relevant, common hashtags if space allows.'' @
     [10] @
     lit ''    *   **Conciseness:** Tweets must be suitable for X.'' @
     [10] @
     lit ''8.  **Focus:** Distill the *single most important aspect* or the core '' @
     lit ''development from the article for a general audience. Don'' @
     [39] @
     lit ''t try to cover everything.'' @
     [10] @
     lit ''9.  **No Jargon (or Explain It):** Avoid jargon. If a technical term i'' @
     lit ''s absolutely necessary, define it immediately in simple terms.'' @
     [10, 10] @
     lit ''Here are some relevant examples of past tweets that might help you wit'' @
     lit ''h the style for this topic:'' @
     [10] @
     lit ''--- BEGIN RELEVANT EXAMPLES ---'' @
     [10]"

definition prompt_template_headline :: pystr where
  "prompt_template_headline =
     [10] @
     lit ''--- END RELEVANT EXAMPLES ---'' @
     [10, 10] @
     lit ''**Current News Item:**'' @
     [10] @
     lit ''Headline: ''"

definition prompt_template_snippet :: pystr where
  "prompt_template_snippet =
     [10] @
     lit ''Article Snippet/Key Information: ''"

definition prompt_template_tail :: pystr where
  "prompt_template_tail =
     [10] @
     lit ''(This content should ideally be a concise summary or the most critical'' @
     lit '' paragraphs of the news story you want to explain)'' @
     [10, 10] @
     lit ''Your post here:'' @
     [10]"

definition prompt_template_image_head :: pystr where
  "prompt_template_image_head =
     [10] @
     lit ''You are an assistant that creates descriptive prompts for an AI image '' @
     lit ''generator (like DALL-E, Midjourney, or Grok'' @
     [39] @
     lit ''s image capabilities).'' @
     [10] @
     lit ''Based on the following news article title and the tweet generated abou'' @
     lit ''t it, create a concise and vivid image prompt.'' @
     [10] @
     lit ''The image should visually represent the core message or theme of the t'' @
     lit ''weet.'' @
     [10] @
     lit ''Focus on key subjects, actions, atmosphere, and style if applicable. A'' @
     lit ''im for a prompt that is detailed enough to guide the AI effectively.'' @
     [10, 10] @
     lit ''Article Title: ''"

definition prompt_template_image_tweet :: pystr where
  "prompt_template_image_tweet =
     [10] @
     lit ''Generated Tweet: ''"

definition prompt_template_image_tail :: pystr where
  "prompt_template_image_tail =
     [10, 10] @
     lit ''Image Prompt for AI:'' @
     [10]"

section \<open>The vector collection\<close>

text \<open>
  A metadata dictionary is an association list from keys to values. A query for one
  embedding answers with the value under \<open>"metadatas"\<close>: \<open>None\<close> when the key is absent,
  otherwise one entry per query embedding, each of them a list of the metadata of the
  hits (an entry that is not a list is \<open>None\<close>; so is a hit without metadata).
\<close>

type_synonym metadata = "(pystr \<times> pystr) list"

type_synonym query_result = "metadata option list option list option"

text \<open>
  The collection object of the vector-store library, which is not part of the program:
  its operations are fields, and each may raise. \<open>count\<close> is \<open>collection.count()\<close>,
  \<open>query\<close> is \<open>collection.query(query_embeddings=[e], n_results=n, include=["metadatas"])\<close>.
  The embedding type is a parameter.
\<close>

record 'e collection =
  count :: "error + nat"
  query :: "'e \<Rightarrow> nat \<Rightarrow> error + query_result"

text \<open>The sentence encoder: \<open>model.encode(texts)\<close>, which may raise.\<close>

type_synonym 'e encoder = "pystr list \<Rightarrow> error + 'e list option"

text \<open>
  The calls that leave the program, in the order they are made: the download of an
  article, the encoding of texts, the query of the collection, the chat request to the
  generation service with its prompt.
\<close>

datatype 'e call =
    Download pystr
  | Encode "pystr list"
  | Query 'e nat
  | Chat pystr

section \<open>The news fetcher\<close>

text \<open>
  The headline service answers with decoded JSON, which can be any JSON value. A number
  stands for its kind alone: its value decides nothing here. Python's \<open>None\<close> is the
  null value.
\<close>

datatype json =
    JNull
  | JBool bool
  | JNum int
  | JStr pystr
  | JList "json list"
  | JDict "(pystr \<times> json) list"

record headline_request =
  req_q :: "pystr option"
  req_sources :: "pystr option"
  req_category :: "pystr option"
  req_language :: pystr
  req_country :: pystr
  req_page_size :: int

record news_fetcher =
  newsapi :: "(headline_request \<Rightarrow> error + json) option"

record processed_article =
  title :: json
  description :: json
  url :: json

text \<open>\<open>d.get(key)\<close> on a dictionary: the value, or \<open>None\<close> when the key is absent.\<close>

definition dict_get :: "(pystr \<times> json) list \<Rightarrow> pystr \<Rightarrow> json" where
  "dict_get d k = (case map_of d k of None \<Rightarrow> JNull | Some v \<Rightarrow> v)"

text \<open>
  What \<open>len(articles)\<close> and \<open>for article in articles\<close> go through: the elements of a list,
  the characters of a string, the keys of a dictionary; \<open>len\<close> of anything else raises.
\<close>

fun iterate :: "json \<Rightarrow> error + json list" where
  "iterate (JList xs) = Inr xs"
| "iterate (JStr cs) = Inr (map (\<lambda>c. JStr [c]) cs)"
| "iterate (JDict d) = Inr (map (\<lambda>(k, v). JStr k) d)"
| "iterate JNull = Inl Raised"
| "iterate (JBool b) = Inl Raised"
| "iterate (JNum n) = Inl Raised"

text \<open>One step of the list comprehension: \<open>article.get\<close> exists on a dictionary only.\<close>

fun process_article :: "json \<Rightarrow> error + processed_article" where
  "process_article (JDict a) =
     Inr \<lparr>title = dict_get a (lit ''title''),
          description = dict_get a (lit ''description''),
          url = dict_get a (lit ''url'')\<rparr>"
| "process_article JNull = Inl Raised"
| "process_article (JBool b) = Inl Raised"
| "process_article (JNum n) = Inl Raised"
| "process_article (JStr cs) = Inl Raised"
| "process_article (JList xs) = Inl Raised"

fun process_articles :: "json list \<Rightarrow> error + processed_article list" where
  "process_articles [] = Inr []"
| "process_articles (article # rest) =
     (case process_article article of
        Inl e \<Rightarrow> Inl e
      | Inr p \<Rightarrow>
          (case process_articles rest of
             Inl e \<Rightarrow> Inl e
           | Inr ps \<Rightarrow> Inr (p # ps)))"

text \<open>
  \<open>get_top_headlines\<close>. Everything after the client check runs inside the \<open>try\<close>, so a
  raise of the call, of \<open>.get\<close> on an answer that is no dictionary, of \<open>len\<close> or of the
  comprehension ends in the handler, which returns \<open>None\<close>.
\<close>

definition get_top_headlines ::
  "news_fetcher \<Rightarrow> headline_request \<Rightarrow> processed_article list option" where
  "get_top_headlines self req =
     (case newsapi self of
        None \<Rightarrow> None
      | Some client \<Rightarrow>
          (case client req of
             Inl e \<Rightarrow> None
           | Inr (JDict top_headlines) \<Rightarrow>
               if dict_get top_headlines (lit ''status'') = JStr (lit ''ok'')
               then
                 (case iterate (case map_of top_headlines (lit ''articles'') of
                                  None \<Rightarrow> JList []
                                | Some articles \<Rightarrow> articles) of
                    Inl e \<Rightarrow> None
                  | Inr articles \<Rightarrow>
                      (case process_articles articles of
                         Inl e \<Rightarrow> None
                       | Inr processed_articles \<Rightarrow> Some processed_articles))
               else None
           | Inr other \<Rightarrow> None))"

text \<open>
  The services outside the program that the agent reaches through module-level calls:
  \<open>ollama.chat(model, messages)["message"]["content"]\<close> for a prompt, and the text of
  the article at a URL (\<open>Article(url)\<close>, \<open>download()\<close>, \<open>parse()\<close>, \<open>.text\<close>). Each may raise.
\<close>

record services =
  ollama_chat :: "pystr \<Rightarrow> error + pystr"
  article_text :: "pystr \<Rightarrow> error + pystr"

definition get_full_article_content ::
  "services \<Rightarrow> pystr option \<Rightarrow> pystr option \<times> 'e call list" where
  "get_full_article_content sv article_url =
     (case article_url of
        None \<Rightarrow> (None, [])
      | Some u \<Rightarrow>
          if u = [] then (None, [])
          else (case article_text sv u of
                  Inl e \<Rightarrow> (None, [Download u])
                | Inr text \<Rightarrow> (Some text, [Download u])))"

section \<open>The agent\<close>

record 'e agent =
  news_fetcher :: news_fetcher
  embedding_model :: "'e encoder option"
  chroma_collection :: "'e collection option"
  ollama_available :: bool

text \<open>
  The loop over \<open>results.get("metadatas")\<close>: the \<open>"text"\<close> of every hit whose metadata is
  a non-empty dictionary holding that key, in the order of the answer.
\<close>

definition texts_of_hits :: "metadata option list \<Rightarrow> pystr list" where
  "texts_of_hits metadata_list =
     concat (map (\<lambda>item_metadata.
                    case item_metadata of
                      None \<Rightarrow> []
                    | Some m \<Rightarrow>
                        (if m \<noteq> [] then
                           (case map_of m (lit ''text'') of None \<Rightarrow> [] | Some text \<Rightarrow> [text])
                         else []))
                 metadata_list)"

definition relevant_tweets_of :: "query_result \<Rightarrow> pystr list" where
  "relevant_tweets_of metadatas_outer_list =
     (case metadatas_outer_list of
        None \<Rightarrow> []
      | Some outer \<Rightarrow>
          concat (map (\<lambda>metadata_list.
                         case metadata_list of None \<Rightarrow> [] | Some ms \<Rightarrow> texts_of_hits ms)
                      outer))"

definition find_relevant_tweets ::
  "'e agent \<Rightarrow> pystr \<Rightarrow> nat \<Rightarrow> pystr list \<times> 'e call list" where
  "find_relevant_tweets self query_text n_results =
     (case chroma_collection self of
        None \<Rightarrow> ([], [])
      | Some coll \<Rightarrow>
          (case embedding_model self of
             None \<Rightarrow> ([], [])
           | Some model \<Rightarrow>
               (case model [query_text] of
                  Inl e \<Rightarrow> ([], [Encode [query_text]])
                | Inr None \<Rightarrow> ([], [Encode [query_text]])
                | Inr (Some []) \<Rightarrow> ([], [Encode [query_text]])
                | Inr (Some (query_embedding # others)) \<Rightarrow>
                    (case query coll query_embedding n_results of
                       Inl e \<Rightarrow>
                         ([], [Encode [query_text], Query query_embedding n_results])
                     | Inr results \<Rightarrow>
                         (relevant_tweets_of results,
                          [Encode [query_text], Query query_embedding n_results])))))"

definition max_content_length :: nat where
  "max_content_length = 2000"

definition truncate_content :: "pystr \<Rightarrow> pystr" where
  "truncate_content full_article_content =
     (if length full_article_content > max_content_length
      then take max_content_length full_article_content @ lit ''...''
      else full_article_content)"

definition no_examples_placeholder :: pystr where
  "no_examples_placeholder =
     lit ''No specifically relevant past examples found. '' @
     lit ''Please generate content based on your core style.''"

definition example_tweets_str :: "pystr list \<Rightarrow> pystr" where
  "example_tweets_str relevant_past_tweets =
     (if relevant_past_tweets \<noteq> []
      then join [10] (map (\<lambda>tweet. lit ''- '' @ [34] @ tweet @ [34]) relevant_past_tweets)
      else no_examples_placeholder)"

text \<open>
  \<open>prompt_template.format(...)\<close>: the literal text with the three values put in place
  of their placeholders.
\<close>

definition draft_prompt :: "pystr \<Rightarrow> pystr \<Rightarrow> pystr list \<Rightarrow> pystr" where
  "draft_prompt article_title full_article_content relevant_past_tweets =
     prompt_template_head @ example_tweets_str relevant_past_tweets @
     prompt_template_headline @ article_title @
     prompt_template_snippet @ truncate_content full_article_content @
     prompt_template_tail"

definition generate_tweet_draft ::
  "services \<Rightarrow> 'e agent \<Rightarrow> pystr \<Rightarrow> pystr \<Rightarrow> pystr list \<Rightarrow> pystr option \<times> 'e call list" where
  "generate_tweet_draft sv self article_title full_article_content relevant_past_tweets =
     (if \<not> ollama_available self then (None, [])
      else
        let prompt = draft_prompt article_title full_article_content relevant_past_tweets
        in (case ollama_chat sv prompt of
              Inl e \<Rightarrow> (None, [Chat prompt])
            | Inr content \<Rightarrow> (Some (strip_think (strip content)), [Chat prompt])))"

definition generate_tweet_from_selected_article ::
  "services \<Rightarrow> 'e agent \<Rightarrow> pystr option \<Rightarrow> pystr option \<Rightarrow> pystr option \<times> 'e call list" where
  "generate_tweet_from_selected_article sv self article_url article_title =
     (if \<not> truthy article_url \<or> \<not> truthy article_title then (None, [])
      else
        (case article_title of
           None \<Rightarrow> (None, [])
         | Some the_title \<Rightarrow>
             (case get_full_article_content sv article_url of
                (full_content, fetched) \<Rightarrow>
                  if \<not> truthy full_content then (None, fetched)
                  else
                    (case full_content of
                       None \<Rightarrow> (None, fetched)
                     | Some content \<Rightarrow>
                         (case find_relevant_tweets self the_title 3 of
                            (relevant_tweets, retrieved) \<Rightarrow>
                              (case generate_tweet_draft sv self the_title content
                                      relevant_tweets of
                                 (draft, generated) \<Rightarrow>
                                   (draft, fetched @ retrieved @ generated)))))))"

definition image_prompt :: "pystr \<Rightarrow> pystr \<Rightarrow> pystr" where
  "image_prompt article_title generated_tweet_text =
     prompt_template_image_head @ article_title @
     prompt_template_image_tweet @ generated_tweet_text @
     prompt_template_image_tail"

definition generate_image_prompt ::
  "services \<Rightarrow> 'e agent \<Rightarrow> pystr \<Rightarrow> pystr \<Rightarrow> pystr option \<times> 'e call list" where
  "generate_image_prompt sv self article_title generated_tweet_text =
     (if \<not> ollama_available self then (None, [])
      else
        let prompt = image_prompt article_title generated_tweet_text
        in (case ollama_chat sv prompt of
              Inl e \<Rightarrow> (None, [Chat prompt])
            | Inr content \<Rightarrow> (Some (strip_think (strip content)), [Chat prompt])))"

section \<open>The population step\<close>

text \<open>The write requests a collection accepts: \<open>collection.add\<close> and \<open>collection.upsert\<close>,
  each with ids, embeddings and metadata.\<close>

datatype 'e write_request =
    Add "pystr list" "'e list" "metadata list"
  | Upsert "pystr list" "'e list" "metadata list"

definition tweet_id :: "nat \<Rightarrow> pystr" where
  "tweet_id i = lit ''tweet_'' @ str_of_nat i"

text \<open>
  \<open>populate_vector_db\<close> returns nothing; the model returns the write requests it sends
  to the collection. A raise of \<open>count()\<close> or of \<open>encode\<close> (or an answer of \<open>encode\<close>
  without \<open>tolist\<close>) ends the run in the handler before anything is sent.
\<close>

definition populate_vector_db ::
  "'e collection option \<Rightarrow> pystr list \<Rightarrow> 'e encoder \<Rightarrow> 'e write_request list" where
  "populate_vector_db collection tweets model =
     (if tweets = [] then []
      else
        (case collection of
           None \<Rightarrow> []
         | Some coll \<Rightarrow>
             (case count coll of
                Inl e \<Rightarrow> []
              | Inr present \<Rightarrow>
                  (case model tweets of
                     Inl e \<Rightarrow> []
                   | Inr None \<Rightarrow> []
                   | Inr (Some embeddings) \<Rightarrow>
                       [Add (map tweet_id [0..<length tweets])
                            embeddings
                            (map (\<lambda>tweet. [(lit ''text'', tweet)]) tweets)]))))"

section \<open>The vector store of the specification\<close>

text \<open>
  Modelled from the spec: the stored item, "\<open>{id: string (unique), embedding: sequence of
  float (fixed dimension D), text: string}\<close>". The embedding type is a parameter.
\<close>

record 'e stored_item =
  item_id :: pystr
  embedding :: 'e
  item_text :: pystr

text \<open>
  Modelled from the spec: the nearest-neighbour query of the vector store, which is an
  external index and not part of the program. "\<open>query(embedding, k)\<close> -> ordered
  sequence of up to k", "ranked by a distance metric", "if fewer than k items exist,
  return all of them, ranked". The metric is a parameter.
\<close>

definition nearest :: "('e \<Rightarrow> 'e \<Rightarrow> 'd::linorder) \<Rightarrow> 'e stored_item list \<Rightarrow> 'e \<Rightarrow> nat \<Rightarrow>
    'e stored_item list" where
  "nearest dist items e k = take k (sort_key (\<lambda>it. dist e (embedding it)) items)"

text \<open>
  Modelled from the spec: the collection object over such a store. It counts its items
  and answers a query for one embedding with the metadata of the nearest items, each
  "a \<open>text\<close> metadata field" as the population step writes it (\<open>{"text": tweet}\<close>).
\<close>

definition vector_store :: "('e \<Rightarrow> 'e \<Rightarrow> 'd::linorder) \<Rightarrow> 'e stored_item list \<Rightarrow> 'e collection" where
  "vector_store dist items =
     \<lparr>count = Inr (length items),
      query = (\<lambda>e k. Inr (Some [Some (map (\<lambda>it. Some [(lit ''text'', item_text it)])
                                         (nearest dist items e k))]))\<rparr>"

section \<open>Example configurations\<close>

text \<open>
  Concrete stand-ins for the outside world, on which the operations can be evaluated:
  an encoder that embeds a text as its length, the distance between two such embeddings,
  a generation service that answers every prompt with a fixed response holding one
  reasoning segment, and an article source with one unreachable address.
\<close>

definition example_encoder :: "nat encoder" where
  "example_encoder texts = Inr (Some (map length texts))"

definition example_dist :: "nat \<Rightarrow> nat \<Rightarrow> nat" where
  "example_dist a b = (if a \<le> b then b - a else a - b)"

definition example_agent :: "nat collection option \<Rightarrow> bool \<Rightarrow> nat agent" where
  "example_agent coll available =
     \<lparr>news_fetcher = \<lparr>newsapi = None\<rparr>,
      embedding_model = Some example_encoder,
      chroma_collection = coll,
      ollama_available = available\<rparr>"

definition example_services :: services where
  "example_services =
     \<lparr>ollama_chat = (\<lambda>prompt. Inr (lit '' <think>plan</think> Draft '')),
      article_text = (\<lambda>u. if u = lit ''unreachable'' then Inl Raised else Inr (lit ''Body''))\<rparr>"

definition example_tweet :: "nat \<Rightarrow> nat \<Rightarrow> string \<Rightarrow> nat stored_item" where
  "example_tweet i e text = \<lparr>item_id = tweet_id i, embedding = e, item_text = lit text\<rparr>"

section \<open>Facts about strings\<close>

lemma find_sub_decomp:
  "find_sub needle s = Some (before, after) \<Longrightarrow> s = before @ needle @ after"
proof (induction s arbitrary: before)
  case Nil
  then show ?case by (simp split: if_splits)
next
  case (Cons x xs)
  show ?case
  proof (cases "prefix needle (x # xs)")
    case True
    with Cons.prems have "before = []" "after = drop (length needle) (x # xs)"
      by simp_all
    moreover from True have "x # xs = needle @ drop (length needle) (x # xs)"
      by (metis append_eq_conv_conj prefixE)
    ultimately show ?thesis by simp
  next
    case False
    with Cons.prems obtain b where b: "find_sub needle xs = Some (b, after)" "before = x # b"
      by (auto split: option.splits)
    from Cons.IH [OF b(1)] b(2) show ?thesis by simp
  qed
qed

lemma find_sub_None_iff: "find_sub needle s = None \<longleftrightarrow> \<not> sublist needle s"
  by (induction s) (auto simp: sublist_Cons_right split: option.splits)

lemma prefix_of_longer:
  assumes "prefix n (b @ n @ a)" "b \<noteq> []"
  shows "prefix n (b @ butlast n)"
proof -
  have "length n \<le> length (b @ butlast n)" using assms(2) by (cases b) auto
  moreover have "prefix (b @ butlast n) (b @ n @ a)"
    by (metis append_butlast_last_id append.assoc prefixI butlast.simps(1) append_Nil2 same_prefix_prefix prefix_def)
  ultimately show ?thesis using assms(1)
    by (metis prefix_length_prefix)
qed

lemma find_sub_first:
  assumes "needle \<noteq> []" "\<not> sublist needle (before @ butlast needle)"
  shows "find_sub needle (before @ needle @ after) = Some (before, after)"
  using assms(2)
proof (induction before)
  case Nil
  obtain x xs where n: "needle = x # xs" using assms(1) by (cases needle) auto
  show ?case by (simp add: n)
next
  case (Cons x b)
  have "\<not> prefix needle ((x # b) @ needle @ after)"
    using Cons.prems prefix_of_longer [of needle "x # b" after] by (auto dest: prefix_imp_sublist)
  moreover have "\<not> sublist needle (b @ butlast needle)"
    using Cons.prems by (simp add: sublist_Cons_right)
  ultimately show ?case using Cons.IH by simp
qed

lemma find_sub_leftmost:
  "find_sub needle s = Some (before, after) \<Longrightarrow> s = p @ needle @ r \<Longrightarrow> length before \<le> length p"
proof (induction s arbitrary: before p)
  case Nil
  then show ?case by (simp split: if_splits)
next
  case (Cons x xs)
  show ?case
  proof (cases "prefix needle (x # xs)")
    case True
    with Cons.prems(1) show ?thesis by simp
  next
    case False
    with Cons.prems(1) obtain b where b: "find_sub needle xs = Some (b, after)" "before = x # b"
      by (auto split: option.splits)
    from False Cons.prems(2) have "p \<noteq> []" by (cases p) auto
    then obtain p' where p: "p = x # p'" "xs = p' @ needle @ r"
      using Cons.prems(2) by (cases p) auto
    from Cons.IH [OF b(1) p(2)] b(2) p(1) show ?thesis by simp
  qed
qed

lemma strip_strip: "strip (strip s) = strip s"
  unfolding strip_def lstrip_def rstrip_def
  by (metis (no_types, lifting) ext dropWhile_eq_Nil_conv
    dropWhile_eq_self_iff dropWhile_last hd_dropWhile hd_rev rev_is_Nil_conv
    rev_swap)

lemma has_segment_iff:
  "has_segment s \<longleftrightarrow> (\<exists>before body rest. s = before @ think_open @ body @ think_close @ rest)"
proof
  assume "has_segment s"
  then obtain b a body rest where "find_sub think_open s = Some (b, a)"
    "find_sub think_close a = Some (body, rest)"
    by (auto simp: has_segment_def split: option.splits)
  then have "s = b @ think_open @ body @ think_close @ rest"
    by (auto dest!: find_sub_decomp)
  then show "\<exists>before body rest. s = before @ think_open @ body @ think_close @ rest"
    by blast
next
  assume "\<exists>before body rest. s = before @ think_open @ body @ think_close @ rest"
  then obtain before body rest where s: "s = before @ think_open @ body @ think_close @ rest"
    by blast
  then have "sublist think_open s" by (auto simp: sublist_def)
  then obtain b a where f: "find_sub think_open s = Some (b, a)"
    using find_sub_None_iff [of think_open s] by (cases "find_sub think_open s") auto
  have le: "length b \<le> length before"
    using find_sub_leftmost [OF f, of before "body @ think_close @ rest"] s by simp
  have "s = b @ think_open @ a" using f by (rule find_sub_decomp)
  then have a: "a = drop (length b + length think_open) s" by simp
  have "body @ think_close @ rest = drop (length before + length think_open) s"
    using s by simp
  also have "\<dots> = drop (length before - length b) a"
    using le by (simp add: a add.commute)
  finally have "sublist think_close (drop (length before - length b) a)"
    by (metis sublist_appendI)
  then have "sublist think_close a"
    by (meson sublist_drop sublist_order.order_trans)
  then have "find_sub think_close a \<noteq> None" by (simp add: find_sub_None_iff)
  with f show "has_segment s" by (simp add: has_segment_def)
qed

lemma re_sub_think_no_segment: "\<not> has_segment s \<Longrightarrow> re_sub_think s = s"
  by (subst re_sub_think.simps) (auto simp: has_segment_def split: option.splits)

lemma subseq_re_sub_think: "subseq (re_sub_think s) s"
proof (induction s rule: re_sub_think.induct)
  case (1 s)
  show ?case
  proof (cases "find_sub think_open s")
    case None
    then show ?thesis by (simp add: re_sub_think.simps)
  next
    case (Some p)
    obtain before after where p: "p = (before, after)" by (cases p)
    show ?thesis
    proof (cases "find_sub think_close after")
      case None
      then show ?thesis using Some p by (simp add: re_sub_think.simps)
    next
      case (Some q)
      obtain body rest where q: "q = (body, rest)" by (cases q)
      have s: "s = before @ think_open @ after"
        using \<open>find_sub think_open s = Some p\<close> p by (auto dest: find_sub_decomp)
      have a: "after = body @ think_close @ rest"
        using Some q by (auto dest: find_sub_decomp)
      have ih: "subseq (re_sub_think (dropWhile is_space rest)) (dropWhile is_space rest)"
        using 1 [OF \<open>find_sub think_open s = Some p\<close> p [symmetric] Some q [symmetric]] .
      have "subseq (dropWhile is_space rest) rest"
        by (rule suffix_imp_subseq) (rule suffix_dropWhile)
      with ih have "subseq (re_sub_think (dropWhile is_space rest)) rest"
        by (rule subseq_order.order_trans)
      then have "subseq (re_sub_think (dropWhile is_space rest)) (think_open @ body @ think_close @ rest)"
        by (intro subseq_drop_many)
      then have "subseq (before @ re_sub_think (dropWhile is_space rest)) s"
        by (simp add: s a subseq_append')
      moreover have "re_sub_think s = before @ re_sub_think (dropWhile is_space rest)"
        using \<open>find_sub think_open s = Some p\<close> p Some q by (subst re_sub_think.simps) simp
      ultimately show ?thesis by simp
    qed
  qed
qed

lemma sublist_eval: "sublist xs ys \<longleftrightarrow> find_sub xs ys \<noteq> None"
  by (simp add: find_sub_None_iff)

lemma find_sub_before:
  "find_sub needle s = Some (before, after) \<Longrightarrow> needle \<noteq> [] \<Longrightarrow> \<not> sublist needle before"
proof (induction s arbitrary: before)
  case Nil
  then show ?case by (simp split: if_splits)
next
  case (Cons x xs)
  show ?case
  proof (cases "prefix needle (x # xs)")
    case True
    with Cons.prems show ?thesis by simp
  next
    case False
    with Cons.prems(1) obtain b where b: "find_sub needle xs = Some (b, after)" "before = x # b"
      by (auto split: option.splits)
    have xs: "xs = b @ needle @ after" using b(1) by (rule find_sub_decomp)
    have "\<not> prefix needle (x # b)"
    proof
      assume "prefix needle (x # b)"
      then have "prefix needle ((x # b) @ needle @ after)" by (rule prefix_prefix)
      with False xs show False by simp
    qed
    moreover have "\<not> sublist needle b" using Cons.IH [OF b(1) Cons.prems(2)] .
    ultimately show ?thesis by (simp add: b(2) sublist_Cons_right)
  qed
qed

lemma strip_decomp: "\<exists>w1 w2. s = w1 @ strip s @ w2"
proof -
  have 1: "s = takeWhile is_space s @ dropWhile is_space s" by simp
  have "rev (dropWhile is_space s) =
      takeWhile is_space (rev (dropWhile is_space s)) @ dropWhile is_space (rev (dropWhile is_space s))"
    by simp
  then have "dropWhile is_space s =
      rev (dropWhile is_space (rev (dropWhile is_space s))) @
      rev (takeWhile is_space (rev (dropWhile is_space s)))"
    by (metis rev_append rev_rev_ident)
  then have "dropWhile is_space s = strip s @ rev (takeWhile is_space (rev (dropWhile is_space s)))"
    by (simp add: strip_def lstrip_def rstrip_def)
  with 1 show ?thesis by metis
qed

lemma has_segment_strip: "has_segment (strip s) \<Longrightarrow> has_segment s"
proof -
  assume "has_segment (strip s)"
  then obtain b body r where "strip s = b @ think_open @ body @ think_close @ r"
    by (auto simp: has_segment_iff)
  moreover obtain w1 w2 where "s = w1 @ strip s @ w2" using strip_decomp by blast
  ultimately have "s = (w1 @ b) @ think_open @ body @ think_close @ (r @ w2)" by simp
  then show "has_segment s" unfolding has_segment_iff by blast
qed

lemma splices_open_iff:
  "splices_open s \<longleftrightarrow>
     (\<exists>u. u \<noteq> [] \<and> strict_prefix u think_open \<and> sublist (u @ think_open) s)"
proof
  assume "splices_open s"
  then obtain j where j: "1 \<le> j" "j < length think_open"
    "sublist (take j think_open @ think_open) s"
    by (auto simp: splices_open_def list_ex_iff)
  then have "take j think_open \<noteq> []" "strict_prefix (take j think_open) think_open"
    by (auto simp: strict_prefix_def take_is_prefix)
  with j(3) show "\<exists>u. u \<noteq> [] \<and> strict_prefix u think_open \<and> sublist (u @ think_open) s"
    by blast
next
  assume "\<exists>u. u \<noteq> [] \<and> strict_prefix u think_open \<and> sublist (u @ think_open) s"
  then obtain u where u: "u \<noteq> []" "strict_prefix u think_open" "sublist (u @ think_open) s"
    by blast
  from u(2) have "prefix u think_open" "u \<noteq> think_open"
    by (simp_all add: strict_prefix_def)
  then obtain zs where zs: "think_open = u @ zs" "zs \<noteq> []"
    by (metis prefixE append_Nil2)
  have "take (length u) think_open = u" by (subst zs(1)) simp
  then have "u = take (length u) think_open" by simp
  moreover have "length u < length think_open"
    using zs(2) by (subst zs(1)) simp
  moreover from u(1) have "1 \<le> length u" by (cases u) auto
  ultimately show "splices_open s"
    using u(3) unfolding splices_open_def list_ex_iff
    by (metis atLeastLessThan_iff set_upt)
qed

lemma no_segment_append:
  assumes R: "\<not> has_segment R"
    and b1: "\<not> sublist think_open before"
    and b2: "\<And>u. u \<noteq> [] \<Longrightarrow> strict_prefix u think_open \<Longrightarrow> \<not> suffix u before"
  shows "\<not> has_segment (before @ R)"
proof
  assume "has_segment (before @ R)"
  then obtain b body r where eq: "before @ R = b @ think_open @ body @ think_close @ r"
    by (auto simp: has_segment_iff)
  then consider us where "before = b @ us" "us @ R = think_open @ body @ think_close @ r"
    | us where "before @ us = b" "R = us @ think_open @ body @ think_close @ r"
    by (auto simp: append_eq_append_conv2)
  then show False
  proof cases
    case 1
    from 1(2) consider vs where "us = think_open @ vs"
      | vs where "us @ vs = think_open" "R = vs @ body @ think_close @ r"
      by (auto simp: append_eq_append_conv2)
    then show False
    proof cases
      case 1
      with \<open>before = b @ us\<close> have "sublist think_open before" by (auto simp: sublist_def)
      with b1 show False by simp
    next
      case 2
      show False
      proof (cases "us = []")
        case True
        with 2 have "R = [] @ think_open @ body @ think_close @ r" by simp
        then have "has_segment R" unfolding has_segment_iff by blast
        with R show False by simp
      next
        case False
        show False
        proof (cases "vs = []")
          case True
          with 2 \<open>before = b @ us\<close> have "before = b @ think_open @ []" by simp
          then have "sublist think_open before" unfolding sublist_def by blast
          with b1 show False by simp
        next
          case vs: False
          from 2(1) have "prefix us think_open" by (metis prefixI)
          moreover from 2(1) vs have "us \<noteq> think_open" by (metis append_self_conv)
          ultimately have "strict_prefix us think_open" by (simp add: strict_prefix_def)
          moreover have "suffix us before" using \<open>before = b @ us\<close> by (simp add: suffix_def)
          ultimately show False using b2 [OF False] by simp
        qed
      qed
    qed
  next
    case 2
    then have "has_segment R" unfolding has_segment_iff by blast
    with R show False by simp
  qed
qed

lemma re_sub_think_clean: "\<not> splices_open s \<Longrightarrow> \<not> has_segment (re_sub_think s)"
proof (induction s rule: re_sub_think.induct)
  case (1 s)
  show ?case
  proof (cases "has_segment s")
    case False
    then show ?thesis by (simp add: re_sub_think_no_segment)
  next
    case True
    then obtain before after body rest where f: "find_sub think_open s = Some (before, after)"
      "find_sub think_close after = Some (body, rest)"
      by (auto simp: has_segment_def split: option.splits)
    have s: "s = before @ think_open @ after" using f(1) by (rule find_sub_decomp)
    have a: "after = body @ think_close @ rest" using f(2) by (rule find_sub_decomp)
    have r: "re_sub_think s = before @ re_sub_think (dropWhile is_space rest)"
      using f by (subst re_sub_think.simps) simp
    have "suffix (dropWhile is_space rest) s"
      using suffix_dropWhile [of is_space rest]
      by (metis s a suffix_appendI suffix_order.order_trans suffixI)
    then have sub: "sublist (dropWhile is_space rest) s" by (rule suffix_imp_sublist)
    have "\<not> splices_open (dropWhile is_space rest)"
      using "1.prems" sub unfolding splices_open_iff
      by (meson sublist_order.order_trans)
    then have ih: "\<not> has_segment (re_sub_think (dropWhile is_space rest))"
      using "1.IH" [OF f(1) refl f(2) refl] by simp
    have b1: "\<not> sublist think_open before"
      using find_sub_before [OF f(1)] by (simp add: think_open_def lit_def)
    have b2: "\<not> suffix u before" if "u \<noteq> []" "strict_prefix u think_open" for u
    proof
      assume "suffix u before"
      then obtain w where "before = w @ u" by (auto simp: suffix_def)
      then have "s = w @ (u @ think_open) @ after" using s by simp
      then have "sublist (u @ think_open) s" unfolding sublist_def by blast
      with that "1.prems" show False unfolding splices_open_iff by blast
    qed
    show ?thesis unfolding r using ih b1 b2 by (rule no_segment_append)
  qed
qed

lemmas eval_strip =
  strip_think_def re_sub_think.simps think_open_def think_close_def
  lit_def strip_def lstrip_def rstrip_def is_space_def has_segment_def

section \<open>Claims about the removal of reasoning segments\<close>

text \<open>
  Claim C3, as amended. A response that holds no complete segment (no \<open><think>\<close> with a
  \<open></think>\<close> after it) comes back unchanged up to trimming, and cleaning it twice gives
  the same as cleaning it once. Cleaning twice also gives the same as cleaning once for
  every response, with any number of segments, in which no opening marker comes right
  after a non-empty proper beginning of the opening marker.
\<close>

theorem strip_think_idempotent_on_unspliced:
  "((\<nexists>before body rest. s = before @ think_open @ body @ think_close @ rest) \<longrightarrow>
      strip_think s = strip s \<and> strip_think (strip_think s) = strip_think s) \<and>
   (\<not> splices_open s \<longrightarrow> strip_think (strip_think s) = strip_think s)"
proof -
  have idem: "strip_think (strip_think s) = strip_think s" if "\<not> has_segment (re_sub_think s)"
  proof -
    from that have "\<not> has_segment (strip_think s)"
      unfolding strip_think_def by (blast dest: has_segment_strip)
    then have "strip_think (strip_think s) = strip (strip_think s)"
      by (simp add: strip_think_def re_sub_think_no_segment)
    then show ?thesis by (simp add: strip_think_def strip_strip)
  qed
  have 1: "strip_think s = strip s \<and> strip_think (strip_think s) = strip_think s"
    if "\<nexists>before body rest. s = before @ think_open @ body @ think_close @ rest"
  proof -
    from that have n: "\<not> has_segment s" by (simp add: has_segment_iff)
    then have "re_sub_think s = s" by (rule re_sub_think_no_segment)
    with n idem show ?thesis by (simp add: strip_think_def)
  qed
  have 2: "strip_think (strip_think s) = strip_think s" if "\<not> splices_open s"
    using that by (intro idem re_sub_think_clean)
  from 1 2 show ?thesis by blast
qed

theorem strip_think_idempotent_on_unspliced_witness:
  "(\<nexists>before body rest. lit '' hello world '' = before @ think_open @ body @ think_close @ rest) \<and>
   strip_think (lit '' hello world '') = lit ''hello world'' \<and>
   strip_think (strip_think (lit '' hello world '')) = lit ''hello world'' \<and>
   \<not> splices_open (lit ''a <think>x</think> b <think>y</think>c'') \<and>
   strip_think (lit ''a <think>x</think> b <think>y</think>c'') = lit ''a b c'' \<and>
   strip_think (strip_think (lit ''a <think>x</think> b <think>y</think>c'')) = lit ''a b c''"
proof -
  have h1: "\<nexists>before body rest. lit '' hello world '' = before @ think_open @ body @ think_close @ rest"
    unfolding has_segment_iff [symmetric] by (simp add: eval_strip)
  have v1: "strip (lit '' hello world '') = lit ''hello world''"
    by (simp add: eval_strip)
  have h2: "\<not> splices_open (lit ''a <think>x</think> b <think>y</think>c'')"
    by (simp add: splices_open_def sublist_eval eval_strip)
  have v2: "strip_think (lit ''a <think>x</think> b <think>y</think>c'') = lit ''a b c''"
    by (simp add: eval_strip)
  have a: "strip_think (lit '' hello world '') = strip (lit '' hello world '')"
    "strip_think (strip_think (lit '' hello world '')) = strip_think (lit '' hello world '')"
    using strip_think_idempotent_on_unspliced [of "lit '' hello world ''"] h1 by blast+
  have b: "strip_think (strip_think (lit ''a <think>x</think> b <think>y</think>c'')) =
      strip_think (lit ''a <think>x</think> b <think>y</think>c'')"
    using strip_think_idempotent_on_unspliced [of "lit ''a <think>x</think> b <think>y</think>c''"] h2
    by blast
  show ?thesis using h1 h2 v2 a b unfolding v1 by simp
qed

text \<open>
  Claim C3 as stated fails: removing a segment can join the text before it and the text
  after it into a new pair of markers, which a second pass then removes.
\<close>

theorem strip_think_not_idempotent:
  "strip_think (strip_think (lit ''<thi<think>x</think>nk>y</think>''))
     \<noteq> strip_think (lit ''<thi<think>x</think>nk>y</think>'')"
proof -
  have 1: "strip_think (lit ''<thi<think>x</think>nk>y</think>'') = lit ''<think>y</think>''"
    by (simp add: eval_strip)
  have 2: "strip_think (lit ''<think>y</think>'') = []"
    by (simp add: eval_strip)
  show ?thesis unfolding 1 2 by (simp add: lit_def)
qed


lemma think_markers_nonempty: "think_open \<noteq> []" "think_close \<noteq> []"
  by (simp_all add: think_open_def think_close_def lit_def)

text \<open>
  Claim C4, as amended. The cleaning handles no, one or several segments, pairing the
  markers flat from left to right. A text without an opening marker is left as it is; so
  is a text whose first opening marker has no closing marker after it. Otherwise the span
  from the first opening marker to the first closing marker after it is removed, also when
  the body holds another opening marker, together with the run of whitespace right after
  the closing marker; the text before the span is kept as it is and the scan goes on in
  the text after. Nothing is added or reordered (the result is a subsequence of the
  input), and the whole is trimmed at the end. That a marker has no occurrence starting
  inside a text \<open>t\<close> is written \<open>\<not> sublist marker (t @ butlast marker)\<close>.
\<close>

theorem re_sub_think_flat_pairs:
  "(\<not> sublist think_open s \<longrightarrow> re_sub_think s = s) \<and>
   (\<not> sublist think_open (before @ butlast think_open) \<and> \<not> sublist think_close after
      \<longrightarrow> re_sub_think (before @ think_open @ after) = before @ think_open @ after) \<and>
   (\<not> sublist think_open (before @ butlast think_open) \<and>
    \<not> sublist think_close (body @ butlast think_close)
      \<longrightarrow> re_sub_think (before @ think_open @ body @ think_close @ rest) =
          before @ re_sub_think (dropWhile is_space rest)) \<and>
   subseq (re_sub_think s) s \<and>
   strip_think s = strip (re_sub_think s)"
proof (intro conjI impI)
  assume "\<not> sublist think_open s"
  then have "find_sub think_open s = None" by (simp add: find_sub_None_iff)
  then show "re_sub_think s = s" by (subst re_sub_think.simps) simp
next
  assume a: "\<not> sublist think_open (before @ butlast think_open) \<and> \<not> sublist think_close after"
  then have "find_sub think_open (before @ think_open @ after) = Some (before, after)"
    by (simp add: find_sub_first think_markers_nonempty)
  moreover from a have "find_sub think_close after = None" by (simp add: find_sub_None_iff)
  ultimately show "re_sub_think (before @ think_open @ after) = before @ think_open @ after"
    by (subst re_sub_think.simps) simp
next
  assume a: "\<not> sublist think_open (before @ butlast think_open) \<and>
    \<not> sublist think_close (body @ butlast think_close)"
  then have "find_sub think_open (before @ think_open @ body @ think_close @ rest) =
      Some (before, body @ think_close @ rest)"
    by (simp add: find_sub_first think_markers_nonempty)
  moreover from a have "find_sub think_close (body @ think_close @ rest) = Some (body, rest)"
    by (simp add: find_sub_first think_markers_nonempty)
  ultimately show "re_sub_think (before @ think_open @ body @ think_close @ rest) =
      before @ re_sub_think (dropWhile is_space rest)"
    by (subst re_sub_think.simps) simp
next
  show "subseq (re_sub_think s) s" by (rule subseq_re_sub_think)
next
  show "strip_think s = strip (re_sub_think s)" by (simp add: strip_think_def)
qed

theorem re_sub_think_flat_pairs_witness:
  "\<not> sublist think_open (lit ''no markers'') \<and>
   re_sub_think (lit ''no markers'') = lit ''no markers'' \<and>
   \<not> sublist think_open (lit ''a'' @ butlast think_open) \<and> \<not> sublist think_close (lit ''b'') \<and>
   re_sub_think (lit ''a'' @ think_open @ lit ''b'') = lit ''a<think>b'' \<and>
   \<not> sublist think_open (lit ''p'' @ butlast think_open) \<and>
   \<not> sublist think_close (lit ''a<think>b'' @ butlast think_close) \<and>
   re_sub_think (lit ''p'' @ think_open @ lit ''a<think>b'' @ think_close @ lit '' c</think>d'') =
     lit ''pc</think>d''"
proof -
  have h1: "\<not> sublist think_open (lit ''no markers'')"
    by (simp add: sublist_eval eval_strip)
  have h2: "\<not> sublist think_open (lit ''a'' @ butlast think_open) \<and> \<not> sublist think_close (lit ''b'')"
    by (simp add: sublist_eval eval_strip)
  have h3: "\<not> sublist think_open (lit ''p'' @ butlast think_open) \<and>
    \<not> sublist think_close (lit ''a<think>b'' @ butlast think_close)"
    by (simp add: sublist_eval eval_strip)
  have r: "re_sub_think (dropWhile is_space (lit '' c</think>d'')) = lit ''c</think>d''"
    by (simp add: eval_strip)
  have e2: "lit ''a'' @ think_open @ lit ''b'' = lit ''a<think>b''"
    by (simp add: eval_strip)
  have e3: "lit ''p'' @ lit ''c</think>d'' = lit ''pc</think>d''"
    by (simp add: lit_def)
  from re_sub_think_flat_pairs [of "lit ''no markers''" "lit ''a''" "lit ''b''"] h1 h2
  have "re_sub_think (lit ''no markers'') = lit ''no markers''"
    "re_sub_think (lit ''a'' @ think_open @ lit ''b'') = lit ''a<think>b''"
    unfolding e2 by blast+
  moreover from re_sub_think_flat_pairs
    [of _ "lit ''p''" _ "lit ''a<think>b''" "lit '' c</think>d''"] h3 r e3
  have "re_sub_think (lit ''p'' @ think_open @ lit ''a<think>b'' @ think_close @ lit '' c</think>d'') =
     lit ''pc</think>d''"
    by simp
  ultimately show ?thesis using h1 h2 h3 by blast
qed

text \<open>
  Claim C4 as stated fails: whitespace right after a closing marker lies outside the
  markers and is removed although it is not at either end of the text. Removing the
  spans alone and trimming would keep it.
\<close>

theorem strip_think_drops_whitespace_after_segment:
  "strip_think (lit ''a<think>x</think> b'') = lit ''ab'' \<and>
   strip (remove_spans_only (lit ''a<think>x</think> b'')) = lit ''a b'' \<and>
   strip_think (lit ''a<think>x</think> b'') \<noteq> strip (remove_spans_only (lit ''a<think>x</think> b''))"
proof -
  have 1: "strip_think (lit ''a<think>x</think> b'') = lit ''ab''"
    by (simp add: eval_strip)
  have 2: "strip (remove_spans_only (lit ''a<think>x</think> b'')) = lit ''a b''"
    by (simp add: eval_strip remove_spans_only.simps)
  show ?thesis unfolding 1 2 by (simp add: lit_def)
qed


section \<open>Claims about draft generation\<close>

text \<open>
  Claim C2. Content longer than 2000 characters is cut to its first 2000 characters with
  \<open>...\<close> appended (2003 characters in all); content of at most 2000 characters is
  passed through unchanged. The prompt is built from the truncated content, and it is
  this prompt that goes to the generation service.
\<close>

theorem truncate_content_spec:
  "(length c > 2000 \<longrightarrow>
      truncate_content c = take 2000 c @ lit ''...'' \<and>
      length (truncate_content c) = 2003 \<and>
      take 2000 (truncate_content c) = take 2000 c \<and>
      drop 2000 (truncate_content c) = lit ''...'') \<and>
   (length c \<le> 2000 \<longrightarrow> truncate_content c = c) \<and>
   draft_prompt t c ex =
     prompt_template_head @ example_tweets_str ex @ prompt_template_headline @ t @
     prompt_template_snippet @ truncate_content c @ prompt_template_tail \<and>
   (ollama_available ag \<longrightarrow>
      snd (generate_tweet_draft sv ag t c ex) = [Chat (draft_prompt t c ex)])"
  by (auto simp: truncate_content_def max_content_length_def lit_def draft_prompt_def
      generate_tweet_draft_def Let_def split: sum.splits)

theorem truncate_content_spec_witness:
  "length (replicate 2001 (97::nat)) > 2000 \<and>
   truncate_content (replicate 2001 97) = replicate 2000 97 @ lit ''...'' \<and>
   length (lit ''short'') \<le> 2000 \<and>
   truncate_content (lit ''short'') = lit ''short'' \<and>
   ollama_available \<lparr>news_fetcher = \<lparr>newsapi = None\<rparr>, embedding_model = None,
     chroma_collection = None :: nat collection option, ollama_available = True\<rparr> \<and>
   snd (generate_tweet_draft \<lparr>ollama_chat = (\<lambda>p. Inr p), article_text = (\<lambda>u. Inl Raised)\<rparr>
     \<lparr>news_fetcher = \<lparr>newsapi = None\<rparr>, embedding_model = None,
       chroma_collection = None :: nat collection option, ollama_available = True\<rparr>
     (lit ''T'') (lit ''short'') []) = [Chat (draft_prompt (lit ''T'') (lit ''short'') [])]"
proof -
  let ?ag = "\<lparr>news_fetcher = \<lparr>newsapi = None\<rparr>, embedding_model = None,
    chroma_collection = None :: nat collection option, ollama_available = True\<rparr>"
  let ?sv = "\<lparr>ollama_chat = (\<lambda>p. Inr p), article_text = (\<lambda>u. Inl Raised)\<rparr>"
  have h1: "length (replicate 2001 (97::nat)) > 2000" by simp
  have h2: "length (lit ''short'') \<le> 2000" by (simp add: lit_def)
  have h3: "ollama_available ?ag" by simp
  have t: "take 2000 (replicate 2001 (97::nat)) = replicate 2000 97" by simp
  have a: "truncate_content (replicate 2001 97) = replicate 2000 97 @ lit ''...''"
    using truncate_content_spec [of "replicate 2001 97" "[]" "[]" ?ag ?sv] h1 t by simp
  have b: "truncate_content (lit ''short'') = lit ''short''"
    "snd (generate_tweet_draft ?sv ?ag (lit ''T'') (lit ''short'') []) =
       [Chat (draft_prompt (lit ''T'') (lit ''short'') [])]"
    using truncate_content_spec [of "lit ''short''" "lit ''T''" "[]" ?ag ?sv] h2 h3 by blast+
  show ?thesis using h1 h2 h3 a b by blast
qed


section \<open>Claims about retrieval, generation and the pipeline\<close>

lemmas eval_agent =
  example_agent_def example_services_def example_encoder_def example_dist_def
  example_tweet_def find_relevant_tweets_def generate_tweet_draft_def
  generate_image_prompt_def generate_tweet_from_selected_article_def
  get_full_article_content_def truthy_def vector_store_def nearest_def
  relevant_tweets_of_def texts_of_hits_def Let_def

lemma join_Cons:
  "join sep (p # ps) = p @ concat (map (\<lambda>r. sep @ r) ps)"
  by (induction ps arbitrary: p) simp_all

text \<open>
  Claim C5. Retrieval returns the empty sequence, and raises nothing, when the collection
  or the embedding model is missing (then without any outside call), when the store
  holds no item, and when the query of the collection raises. With no examples the
  example part of the prompt is the placeholder sentence, and the prompt built around it
  is what goes to the generation service; with examples it is one line \<open>- "tweet"\<close> per
  example, the lines separated by newlines, and the prompt that goes to the generation
  service holds these lines in the place of the placeholder.
\<close>

theorem retrieval_and_prompt_degrade:
  "(chroma_collection ag = None \<or> embedding_model ag = None
      \<longrightarrow> find_relevant_tweets ag q k = ([], [])) \<and>
   (chroma_collection ag = Some (vector_store dist [])
      \<longrightarrow> fst (find_relevant_tweets ag q k) = []) \<and>
   (chroma_collection ag = Some coll \<and> (\<forall>e. query coll e k = Inl err)
      \<longrightarrow> fst (find_relevant_tweets ag q k) = []) \<and>
   example_tweets_str [] = no_examples_placeholder \<and>
   (ollama_available ag \<longrightarrow>
      snd (generate_tweet_draft sv ag t c []) =
        [Chat (prompt_template_head @ no_examples_placeholder @ prompt_template_headline @ t @
               prompt_template_snippet @ truncate_content c @ prompt_template_tail)]) \<and>
   example_tweets_str (x # xs) =
     (lit ''- '' @ [34] @ x @ [34]) @
     concat (map (\<lambda>tweet. [10] @ lit ''- '' @ [34] @ tweet @ [34]) xs) \<and>
   (ollama_available ag \<longrightarrow>
      snd (generate_tweet_draft sv ag t c (x # xs)) =
        [Chat (prompt_template_head @
               ((lit ''- '' @ [34] @ x @ [34]) @
                concat (map (\<lambda>tweet. [10] @ lit ''- '' @ [34] @ tweet @ [34]) xs)) @
               prompt_template_headline @ t @
               prompt_template_snippet @ truncate_content c @ prompt_template_tail)])"
proof (intro conjI impI)
  assume "chroma_collection ag = None \<or> embedding_model ag = None"
  then show "find_relevant_tweets ag q k = ([], [])"
    by (auto simp: find_relevant_tweets_def split: option.splits)
next
  assume "chroma_collection ag = Some (vector_store dist [])"
  then show "fst (find_relevant_tweets ag q k) = []"
    by (simp add: find_relevant_tweets_def vector_store_def nearest_def relevant_tweets_of_def
        texts_of_hits_def split: option.splits sum.splits list.splits)
next
  assume "chroma_collection ag = Some coll \<and> (\<forall>e. query coll e k = Inl err)"
  then show "fst (find_relevant_tweets ag q k) = []"
    by (simp add: find_relevant_tweets_def split: option.splits sum.splits list.splits)
next
  show "example_tweets_str [] = no_examples_placeholder"
    by (simp add: example_tweets_str_def)
next
  assume "ollama_available ag"
  then show "snd (generate_tweet_draft sv ag t c []) =
        [Chat (prompt_template_head @ no_examples_placeholder @ prompt_template_headline @ t @
               prompt_template_snippet @ truncate_content c @ prompt_template_tail)]"
    by (simp add: generate_tweet_draft_def draft_prompt_def example_tweets_str_def Let_def
        split: sum.splits)
next
  show "example_tweets_str (x # xs) =
     (lit ''- '' @ [34] @ x @ [34]) @
     concat (map (\<lambda>tweet. [10] @ lit ''- '' @ [34] @ tweet @ [34]) xs)"
    by (simp add: example_tweets_str_def join_Cons comp_def)
next
  assume "ollama_available ag"
  then show "snd (generate_tweet_draft sv ag t c (x # xs)) =
        [Chat (prompt_template_head @
               ((lit ''- '' @ [34] @ x @ [34]) @
                concat (map (\<lambda>tweet. [10] @ lit ''- '' @ [34] @ tweet @ [34]) xs)) @
               prompt_template_headline @ t @
               prompt_template_snippet @ truncate_content c @ prompt_template_tail)]"
    by (simp add: generate_tweet_draft_def draft_prompt_def example_tweets_str_def Let_def
        join_Cons comp_def split: sum.splits)
qed

theorem retrieval_and_prompt_degrade_witness:
  "chroma_collection (example_agent None True) = None \<and>
   find_relevant_tweets (example_agent None True) (lit ''Fed'') 3 = ([], []) \<and>
   chroma_collection (example_agent (Some (vector_store example_dist [])) True) =
     Some (vector_store example_dist []) \<and>
   fst (find_relevant_tweets (example_agent (Some (vector_store example_dist [])) True)
     (lit ''Fed'') 3) = [] \<and>
   (\<forall>e. query \<lparr>count = Inl Raised, query = (\<lambda>e k. Inl Raised)\<rparr> e 3 = Inl Raised) \<and>
   fst (find_relevant_tweets
     (example_agent (Some \<lparr>count = Inl Raised, query = (\<lambda>e k. Inl Raised)\<rparr>) True)
     (lit ''Fed'') 3) = [] \<and>
   ollama_available (example_agent None True) \<and>
   snd (generate_tweet_draft example_services (example_agent None True)
     (lit ''Fed'') (lit ''Body'') []) =
     [Chat (prompt_template_head @ no_examples_placeholder @ prompt_template_headline @
            lit ''Fed'' @ prompt_template_snippet @ lit ''Body'' @ prompt_template_tail)] \<and>
   snd (generate_tweet_draft example_services (example_agent None True)
     (lit ''Fed'') (lit ''Body'') [lit ''Past post A'', lit ''Past post B'']) =
     [Chat (prompt_template_head @
            lit ''- '' @ [34] @ lit ''Past post A'' @ [34, 10] @
            lit ''- '' @ [34] @ lit ''Past post B'' @ [34] @
            prompt_template_headline @
            lit ''Fed'' @ prompt_template_snippet @ lit ''Body'' @ prompt_template_tail)]"
proof -
  let ?down = "\<lparr>count = Inl Raised, query = (\<lambda>e k. Inl Raised)\<rparr> :: nat collection"
  have h1: "chroma_collection (example_agent None True) = None \<or>
      embedding_model (example_agent None True) = None"
    by (simp add: example_agent_def)
  have h2: "chroma_collection (example_agent (Some (vector_store example_dist [])) True) =
      Some (vector_store example_dist [])"
    by (simp add: example_agent_def)
  have h3: "chroma_collection (example_agent (Some ?down) True) = Some ?down \<and>
      (\<forall>e. query ?down e 3 = Inl Raised)"
    by (simp add: example_agent_def)
  have h4: "ollama_available (example_agent None True)"
    by (simp add: example_agent_def)
  have c: "truncate_content (lit ''Body'') = lit ''Body''"
    by (simp add: truncate_content_def max_content_length_def lit_def)
  have a: "find_relevant_tweets (example_agent None True) (lit ''Fed'') 3 = ([], [])"
    using retrieval_and_prompt_degrade [of "example_agent None True" "lit ''Fed''" 3 example_dist ?down Raised example_services
        "lit ''Fed''" "lit ''Body''" "[]" "[]"] h1
    by blast
  have b: "fst (find_relevant_tweets (example_agent (Some (vector_store example_dist [])) True)
      (lit ''Fed'') 3) = []"
    using retrieval_and_prompt_degrade
      [of "example_agent (Some (vector_store example_dist [])) True" "lit ''Fed''" 3 example_dist ?down Raised example_services
        "lit ''Fed''" "lit ''Body''" "[]" "[]"] h2
    by blast
  have d: "fst (find_relevant_tweets (example_agent (Some ?down) True) (lit ''Fed'') 3) = []"
    using retrieval_and_prompt_degrade
      [of "example_agent (Some ?down) True" "lit ''Fed''" 3 example_dist ?down Raised example_services
        "lit ''Fed''" "lit ''Body''" "[]" "[]"] h3
    by blast
  have e: "snd (generate_tweet_draft example_services (example_agent None True)
      (lit ''Fed'') (lit ''Body'') []) =
     [Chat (prompt_template_head @ no_examples_placeholder @ prompt_template_headline @
            lit ''Fed'' @ prompt_template_snippet @ lit ''Body'' @ prompt_template_tail)]"
    using retrieval_and_prompt_degrade
      [of "example_agent None True" "lit ''Fed''" 3 example_dist ?down Raised example_services
        "lit ''Fed''" "lit ''Body''" "[]" "[]"] h4 c
    by simp
  have f0: "snd (generate_tweet_draft example_services (example_agent None True)
      (lit ''Fed'') (lit ''Body'') (lit ''Past post A'' # [lit ''Past post B''])) =
     [Chat (prompt_template_head @
            ((lit ''- '' @ [34] @ lit ''Past post A'' @ [34]) @
             concat (map (\<lambda>tweet. [10] @ lit ''- '' @ [34] @ tweet @ [34])
               [lit ''Past post B''])) @
            prompt_template_headline @ lit ''Fed'' @ prompt_template_snippet @
            truncate_content (lit ''Body'') @ prompt_template_tail)]"
    using retrieval_and_prompt_degrade
      [of "example_agent None True" "lit ''Fed''" 3 example_dist ?down Raised example_services
        "lit ''Fed''" "lit ''Body''" "lit ''Past post A''" "[lit ''Past post B'']"] h4
    by blast
  have f: "snd (generate_tweet_draft example_services (example_agent None True)
      (lit ''Fed'') (lit ''Body'') [lit ''Past post A'', lit ''Past post B'']) =
     [Chat (prompt_template_head @
            lit ''- '' @ [34] @ lit ''Past post A'' @ [34, 10] @
            lit ''- '' @ [34] @ lit ''Past post B'' @ [34] @
            prompt_template_headline @
            lit ''Fed'' @ prompt_template_snippet @ lit ''Body'' @ prompt_template_tail)]"
    using f0 c by simp
  show ?thesis using h1 h2 h3 h4 a b d e f by (simp add: example_agent_def)
qed

text \<open>
  Claim C6. When the availability probe failed, draft generation and image-prompt
  generation return no result and make no outside call at all. When the chat request
  raises, they return no result.
\<close>

theorem generation_unavailable_or_failing:
  "(\<not> ollama_available ag \<longrightarrow>
      generate_tweet_draft sv ag t c ex = (None, []) \<and>
      generate_image_prompt sv ag t d = (None, [])) \<and>
   (ollama_chat sv (draft_prompt t c ex) = Inl err \<longrightarrow>
      fst (generate_tweet_draft sv ag t c ex) = None) \<and>
   (ollama_chat sv (image_prompt t d) = Inl err \<longrightarrow>
      fst (generate_image_prompt sv ag t d) = None)"
  by (simp add: generate_tweet_draft_def generate_image_prompt_def Let_def)

theorem generation_unavailable_or_failing_witness:
  "\<not> ollama_available (example_agent None False) \<and>
   generate_tweet_draft example_services (example_agent None False)
     (lit ''Fed'') (lit ''Body'') [lit ''Past post''] = (None, []) \<and>
   generate_image_prompt example_services (example_agent None False)
     (lit ''Fed'') (lit ''Draft'') = (None, []) \<and>
   ollama_chat \<lparr>ollama_chat = (\<lambda>p. Inl Raised), article_text = (\<lambda>u. Inl Raised)\<rparr>
     (draft_prompt (lit ''Fed'') (lit ''Body'') []) = Inl Raised \<and>
   fst (generate_tweet_draft \<lparr>ollama_chat = (\<lambda>p. Inl Raised), article_text = (\<lambda>u. Inl Raised)\<rparr>
     (example_agent None True) (lit ''Fed'') (lit ''Body'') []) = None \<and>
   fst (generate_image_prompt \<lparr>ollama_chat = (\<lambda>p. Inl Raised), article_text = (\<lambda>u. Inl Raised)\<rparr>
     (example_agent None True) (lit ''Fed'') (lit ''Draft'')) = None"
proof -
  let ?off = "\<lparr>ollama_chat = (\<lambda>p. Inl Raised), article_text = (\<lambda>u. Inl Raised)\<rparr>"
  have h1: "\<not> ollama_available (example_agent None False)"
    by (simp add: example_agent_def)
  have h2: "ollama_chat ?off (draft_prompt (lit ''Fed'') (lit ''Body'') []) = Inl Raised"
    "ollama_chat ?off (image_prompt (lit ''Fed'') (lit ''Draft'')) = Inl Raised"
    by simp_all
  have a: "generate_tweet_draft example_services (example_agent None False)
     (lit ''Fed'') (lit ''Body'') [lit ''Past post''] = (None, [])"
    "generate_image_prompt example_services (example_agent None False)
     (lit ''Fed'') (lit ''Draft'') = (None, [])"
    using generation_unavailable_or_failing [of "example_agent None False" example_services
        "lit ''Fed''" "lit ''Body''" "[lit ''Past post'']" "lit ''Draft''"] h1
    by blast+
  have b: "fst (generate_tweet_draft ?off (example_agent None True)
      (lit ''Fed'') (lit ''Body'') []) = None"
    "fst (generate_image_prompt ?off (example_agent None True)
      (lit ''Fed'') (lit ''Draft'')) = None"
    using generation_unavailable_or_failing [of "example_agent None True" ?off
        "lit ''Fed''" "lit ''Body''" "[]" "lit ''Draft''" Raised] h2
    by blast+
  show ?thesis using h1 h2 a b by blast
qed

text \<open>
  Claim C8. A missing (or empty) URL or title ends the pipeline with no result before any
  outside call. When the URL and the title are present and fetching the full text gives
  nothing (or an empty text), the pipeline returns no result after the download alone:
  neither the retrieval step nor the generation service is called.
\<close>

theorem pipeline_rejects_before_generation:
  "(\<not> truthy article_url \<or> \<not> truthy article_title \<longrightarrow>
      generate_tweet_from_selected_article sv ag article_url article_title = (None, [])) \<and>
   (truthy article_url \<and> truthy article_title \<and>
    (fst (get_full_article_content sv article_url :: pystr option \<times> 'e call list) = None \<or>
     fst (get_full_article_content sv article_url :: pystr option \<times> 'e call list) = Some [])
      \<longrightarrow>
      (generate_tweet_from_selected_article sv ag article_url article_title
         :: pystr option \<times> 'e call list) =
        (None, [Download (the article_url)]))"
  by (auto simp: generate_tweet_from_selected_article_def get_full_article_content_def
      truthy_def split: option.splits sum.splits if_splits)

theorem pipeline_rejects_before_generation_witness:
  "\<not> truthy None \<and>
   generate_tweet_from_selected_article example_services (example_agent None True)
     None (Some (lit ''Fed'')) = (None, []) \<and>
   \<not> truthy (Some []) \<and>
   generate_tweet_from_selected_article example_services (example_agent None True)
     (Some (lit ''u'')) (Some []) = (None, []) \<and>
   truthy (Some (lit ''unreachable'')) \<and> truthy (Some (lit ''Fed'')) \<and>
   fst (get_full_article_content example_services (Some (lit ''unreachable''))
     :: pystr option \<times> nat call list) = None \<and>
   generate_tweet_from_selected_article example_services (example_agent None True)
     (Some (lit ''unreachable'')) (Some (lit ''Fed'')) = (None, [Download (lit ''unreachable'')])"
proof -
  have h1: "\<not> truthy None" "\<not> truthy (Some [])" by (simp_all add: truthy_def)
  have h2: "truthy (Some (lit ''unreachable''))" "truthy (Some (lit ''Fed''))"
    by (simp_all add: truthy_def lit_def)
  have h3: "fst (get_full_article_content example_services (Some (lit ''unreachable''))
     :: pystr option \<times> nat call list) = None"
    by (simp add: get_full_article_content_def example_services_def lit_def)
  have a: "generate_tweet_from_selected_article example_services (example_agent None True)
     None (Some (lit ''Fed'')) = (None, [])"
    using pipeline_rejects_before_generation [of None "Some (lit ''Fed'')" example_services
        "example_agent None True"] h1
    by blast
  have b: "generate_tweet_from_selected_article example_services (example_agent None True)
     (Some (lit ''u'')) (Some []) = (None, [])"
    using pipeline_rejects_before_generation [of "Some (lit ''u'')" "Some []" example_services
        "example_agent None True"] h1
    by blast
  have c: "generate_tweet_from_selected_article example_services (example_agent None True)
     (Some (lit ''unreachable'')) (Some (lit ''Fed'')) = (None, [Download (lit ''unreachable'')])"
    using pipeline_rejects_before_generation [of "Some (lit ''unreachable'')"
        "Some (lit ''Fed'')" example_services "example_agent None True"] h2 h3
    by simp
  show ?thesis using h1 h2 h3 a b c by blast
qed

text \<open>
  Claim C9. A pipeline run that has its content retrieves with the title as query text and
  3 as the number of results, and drafts from the title, the content and the tweets
  retrieved. In every run, whatever is encoded for retrieval is the title alone and
  whatever is asked of the collection is asked for 3 results.
\<close>

theorem pipeline_retrieves_by_title:
  "(u \<noteq> [] \<and> t \<noteq> [] \<and> article_text sv u = Inr content \<and> content \<noteq> [] \<longrightarrow>
      generate_tweet_from_selected_article sv ag (Some u) (Some t) =
        (fst (generate_tweet_draft sv ag t content (fst (find_relevant_tweets ag t 3))),
         [Download u] @ snd (find_relevant_tweets ag t 3) @
         snd (generate_tweet_draft sv ag t content (fst (find_relevant_tweets ag t 3))))) \<and>
   (Encode ts \<in> set (snd (generate_tweet_from_selected_article sv ag article_url (Some t)))
      \<longrightarrow> ts = [t]) \<and>
   (Query e k \<in> set (snd (generate_tweet_from_selected_article sv ag article_url (Some t)))
      \<longrightarrow> k = 3)"
proof -
  have enc: "Encode ts \<in> set (snd (find_relevant_tweets ag t n)) \<Longrightarrow> ts = [t]" for n
    by (auto simp: find_relevant_tweets_def split: option.splits sum.splits list.splits)
  have qry: "Query e k \<in> set (snd (find_relevant_tweets ag t n)) \<Longrightarrow> k = n" for n
    by (auto simp: find_relevant_tweets_def split: option.splits sum.splits list.splits)
  have gen: "Encode ts \<notin> set (snd (generate_tweet_draft sv ag a b c))"
    "Query e k \<notin> set (snd (generate_tweet_draft sv ag a b c))" for a b c
    by (auto simp: generate_tweet_draft_def Let_def split: sum.splits)
  have fetch: "Encode ts \<notin> set (snd (get_full_article_content sv article_url :: _ \<times> 'a call list))"
    "Query e k \<notin> set (snd (get_full_article_content sv article_url :: _ \<times> 'a call list))"
    by (auto simp: get_full_article_content_def split: option.splits sum.splits)
  show ?thesis
    using enc [of 3] qry [of 3] gen fetch
    by (auto simp: generate_tweet_from_selected_article_def truthy_def get_full_article_content_def
        split_beta split: option.splits if_splits sum.splits)
qed


theorem pipeline_retrieves_by_title_witness:
  "lit ''u'' \<noteq> [] \<and> lit ''Fed'' \<noteq> [] \<and>
   article_text example_services (lit ''u'') = Inr (lit ''Body'') \<and> lit ''Body'' \<noteq> [] \<and>
   generate_tweet_from_selected_article example_services
     (example_agent (Some (vector_store example_dist [example_tweet 0 9 ''far''])) True)
     (Some (lit ''u'')) (Some (lit ''Fed'')) =
     (Some (lit ''Draft''),
      [Download (lit ''u''), Encode [lit ''Fed''], Query 3 3,
       Chat (draft_prompt (lit ''Fed'') (lit ''Body'') [lit ''far''])]) \<and>
   Encode [lit ''Fed''] \<in> set (snd (generate_tweet_from_selected_article example_services
     (example_agent (Some (vector_store example_dist [example_tweet 0 9 ''far''])) True)
     (Some (lit ''u'')) (Some (lit ''Fed'')))) \<and>
   Query 3 3 \<in> set (snd (generate_tweet_from_selected_article example_services
     (example_agent (Some (vector_store example_dist [example_tweet 0 9 ''far''])) True)
     (Some (lit ''u'')) (Some (lit ''Fed''))))"
proof -
  let ?ag = "example_agent (Some (vector_store example_dist [example_tweet 0 9 ''far''])) True"
  have h: "lit ''u'' \<noteq> [] \<and> lit ''Fed'' \<noteq> [] \<and>
      article_text example_services (lit ''u'') = Inr (lit ''Body'') \<and> lit ''Body'' \<noteq> []"
    by (simp add: example_services_def lit_def)
  have r: "find_relevant_tweets ?ag (lit ''Fed'') 3 =
      ([lit ''far''], [Encode [lit ''Fed''], Query 3 3])"
    by (simp add: eval_agent lit_def)
  have g: "generate_tweet_draft example_services ?ag (lit ''Fed'') (lit ''Body'') [lit ''far''] =
      (Some (lit ''Draft''), [Chat (draft_prompt (lit ''Fed'') (lit ''Body'') [lit ''far''])])"
    by (simp add: eval_agent eval_strip)
  have a: "generate_tweet_from_selected_article example_services ?ag
      (Some (lit ''u'')) (Some (lit ''Fed'')) =
     (Some (lit ''Draft''),
      [Download (lit ''u''), Encode [lit ''Fed''], Query 3 3,
       Chat (draft_prompt (lit ''Fed'') (lit ''Body'') [lit ''far''])])"
    using pipeline_retrieves_by_title [of "lit ''u''" "lit ''Fed''" example_services
        "lit ''Body''" ?ag] h r g
    by simp
  have m: "Encode [lit ''Fed''] \<in> set (snd (generate_tweet_from_selected_article
      example_services ?ag (Some (lit ''u'')) (Some (lit ''Fed''))))"
    "Query 3 3 \<in> set (snd (generate_tweet_from_selected_article
      example_services ?ag (Some (lit ''u'')) (Some (lit ''Fed''))))"
    unfolding a by simp_all
  have "[lit ''Fed''] = [lit ''Fed''] \<and> (3::nat) = 3"
    using pipeline_retrieves_by_title [of "lit ''u''" "lit ''Fed''" example_services
        "lit ''Body''" ?ag "[lit ''Fed'']" "Some (lit ''u'')" 3 3] m
    by blast
  then show ?thesis using h a m by blast
qed


lemma texts_of_hits_items:
  "texts_of_hits (map (\<lambda>it. Some [(lit ''text'', item_text it)]) its) = map item_text its"
  by (induction its) (simp_all add: texts_of_hits_def)

lemma nearest_length: "length (nearest dist items e k) = min k (length items)"
  by (simp add: nearest_def min.commute)

lemma nearest_sorted: "sorted (map (\<lambda>it. dist e (embedding it)) (nearest dist items e k))"
proof -
  have "sorted (take k (map (\<lambda>it. dist e (embedding it))
      (sort_key (\<lambda>it. dist e (embedding it)) items)))"
    by (intro sorted_wrt_take sorted_sort_key)
  then show ?thesis by (simp add: nearest_def take_map)
qed

lemma nearest_closest:
  assumes "h \<in> set (nearest dist items e k)"
    and "r \<in> set (drop k (sort_key (\<lambda>it. dist e (embedding it)) items))"
  shows "dist e (embedding h) \<le> dist e (embedding r)"
proof -
  let ?f = "\<lambda>it. dist e (embedding it)"
  have "sorted (map ?f (take k (sort_key ?f items) @ drop k (sort_key ?f items)))"
    by (simp add: sorted_sort_key)
  then have "\<forall>x\<in>set (map ?f (take k (sort_key ?f items))).
      \<forall>y\<in>set (map ?f (drop k (sort_key ?f items))). x \<le> y"
    unfolding map_append sorted_append by blast
  with assms show ?thesis by (auto simp: nearest_def)
qed

lemma nearest_all: "length items \<le> k \<Longrightarrow> mset (nearest dist items e k) = mset items"
  by (simp add: nearest_def)

text \<open>
  Claim C1. With the collection and the embedding model initialized and an encoder that
  yields an embedding for the query, retrieval over the vector store of the specification
  returns the texts of the \<open>k\<close> nearest stored items: \<open>min k size\<close> texts, where \<open>size\<close> is
  the count of the collection, in the order of non-decreasing distance of the stored
  embedding to the query embedding, and no item left out is nearer than one returned.
  With fewer than \<open>k\<close> items the hits are all the stored items, ranked.
\<close>

theorem find_relevant_tweets_nearest:
  "chroma_collection ag = Some (vector_store dist items) \<and>
   embedding_model ag = Some model \<and> model [q] = Inr (Some (e # es)) \<longrightarrow>
     fst (find_relevant_tweets ag q k) = map item_text (nearest dist items e k) \<and>
     count (vector_store dist items) = Inr (length items) \<and>
     length (fst (find_relevant_tweets ag q k)) = min k (length items) \<and>
     sorted (map (\<lambda>it. dist e (embedding it)) (nearest dist items e k)) \<and>
     mset (nearest dist items e k) \<subseteq># mset items \<and>
     (h \<in> set (nearest dist items e k) \<and>
      r \<in> set (drop k (sort_key (\<lambda>it. dist e (embedding it)) items)) \<longrightarrow>
        dist e (embedding h) \<le> dist e (embedding r)) \<and>
     (length items \<le> k \<longrightarrow>
        mset (nearest dist items e k) = mset items \<and>
        length (fst (find_relevant_tweets ag q k)) = length items)"
proof (intro impI)
  assume a: "chroma_collection ag = Some (vector_store dist items) \<and>
    embedding_model ag = Some model \<and> model [q] = Inr (Some (e # es))"
  then have r: "fst (find_relevant_tweets ag q k) = map item_text (nearest dist items e k)"
    by (simp add: find_relevant_tweets_def vector_store_def relevant_tweets_of_def
        texts_of_hits_items)
  have c: "count (vector_store dist items) = Inr (length items)"
    by (simp add: vector_store_def)
  have l: "length (fst (find_relevant_tweets ag q k)) = min k (length items)"
    unfolding r by (simp add: nearest_length)
  have "mset (take k (sort_key (\<lambda>it. dist e (embedding it)) items)) \<subseteq>#
      mset (sort_key (\<lambda>it. dist e (embedding it)) items)"
    by (metis append_take_drop_id mset_append mset_subset_eq_add_left)
  then have m: "mset (nearest dist items e k) \<subseteq># mset items"
    by (simp add: nearest_def)
  have n: "dist e (embedding h) \<le> dist e (embedding r)"
    if "h \<in> set (nearest dist items e k) \<and>
      r \<in> set (drop k (sort_key (\<lambda>it. dist e (embedding it)) items))"
    using that nearest_closest [of h dist items e k r] by blast
  have f: "mset (nearest dist items e k) = mset items \<and>
      length (fst (find_relevant_tweets ag q k)) = length items"
    if "length items \<le> k"
    using that l by (simp add: nearest_all)
  show "fst (find_relevant_tweets ag q k) = map item_text (nearest dist items e k) \<and>
     count (vector_store dist items) = Inr (length items) \<and>
     length (fst (find_relevant_tweets ag q k)) = min k (length items) \<and>
     sorted (map (\<lambda>it. dist e (embedding it)) (nearest dist items e k)) \<and>
     mset (nearest dist items e k) \<subseteq># mset items \<and>
     (h \<in> set (nearest dist items e k) \<and>
      r \<in> set (drop k (sort_key (\<lambda>it. dist e (embedding it)) items)) \<longrightarrow>
        dist e (embedding h) \<le> dist e (embedding r)) \<and>
     (length items \<le> k \<longrightarrow>
        mset (nearest dist items e k) = mset items \<and>
        length (fst (find_relevant_tweets ag q k)) = length items)"
    using r c l m n f nearest_sorted [of dist e items k] by blast
qed

theorem find_relevant_tweets_nearest_witness:
  "chroma_collection (example_agent (Some (vector_store example_dist
      [example_tweet 0 9 ''far'', example_tweet 1 4 ''near'', example_tweet 2 6 ''mid''])) True) =
     Some (vector_store example_dist
      [example_tweet 0 9 ''far'', example_tweet 1 4 ''near'', example_tweet 2 6 ''mid'']) \<and>
   embedding_model (example_agent (Some (vector_store example_dist
      [example_tweet 0 9 ''far'', example_tweet 1 4 ''near'', example_tweet 2 6 ''mid''])) True) =
     Some example_encoder \<and>
   example_encoder [lit ''Fed''] = Inr (Some [3]) \<and>
   nearest example_dist
     [example_tweet 0 9 ''far'', example_tweet 1 4 ''near'', example_tweet 2 6 ''mid''] 3 2 =
     [example_tweet 1 4 ''near'', example_tweet 2 6 ''mid''] \<and>
   example_tweet 1 4 ''near''
     \<in> set (nearest example_dist
         [example_tweet 0 9 ''far'', example_tweet 1 4 ''near'', example_tweet 2 6 ''mid''] 3 2) \<and>
   example_tweet 0 9 ''far''
     \<in> set (drop 2 (sort_key (\<lambda>it. example_dist 3 (embedding it))
         [example_tweet 0 9 ''far'', example_tweet 1 4 ''near'', example_tweet 2 6 ''mid''])) \<and>
   example_dist 3 (embedding (example_tweet 1 4 ''near'')) \<le>
     example_dist 3 (embedding (example_tweet 0 9 ''far'')) \<and>
   fst (find_relevant_tweets (example_agent (Some (vector_store example_dist
      [example_tweet 0 9 ''far'', example_tweet 1 4 ''near'', example_tweet 2 6 ''mid''])) True)
      (lit ''Fed'') 2) = [lit ''near'', lit ''mid''] \<and>
   length (fst (find_relevant_tweets (example_agent (Some (vector_store example_dist
      [example_tweet 0 9 ''far'', example_tweet 1 4 ''near'', example_tweet 2 6 ''mid''])) True)
      (lit ''Fed'') 2)) = min 2 3 \<and>
   length [example_tweet 0 9 ''far'', example_tweet 1 4 ''near'', example_tweet 2 6 ''mid''] \<le> 5 \<and>
   length (fst (find_relevant_tweets (example_agent (Some (vector_store example_dist
      [example_tweet 0 9 ''far'', example_tweet 1 4 ''near'', example_tweet 2 6 ''mid''])) True)
      (lit ''Fed'') 5)) = 3"
proof -
  let ?items = "[example_tweet 0 9 ''far'', example_tweet 1 4 ''near'', example_tweet 2 6 ''mid'']"
  let ?ag = "example_agent (Some (vector_store example_dist ?items)) True"
  let ?near = "example_tweet 1 4 ''near''"
  let ?far = "example_tweet 0 9 ''far''"
  have h: "chroma_collection ?ag = Some (vector_store example_dist ?items) \<and>
      embedding_model ?ag = Some example_encoder \<and>
      example_encoder [lit ''Fed''] = Inr (Some (3 # []))"
    by (simp add: example_agent_def example_encoder_def lit_def)
  have n: "nearest example_dist ?items 3 2 = [?near, example_tweet 2 6 ''mid'']"
    by (simp add: nearest_def example_dist_def example_tweet_def)
  have v: "map item_text [?near, example_tweet 2 6 ''mid''] = [lit ''near'', lit ''mid'']"
    by (simp add: example_tweet_def)
  have m1: "?near \<in> set (nearest example_dist ?items 3 2)"
    unfolding n by simp
  have m2: "?far \<in> set (drop 2 (sort_key (\<lambda>it. example_dist 3 (embedding it)) ?items))"
    by (simp add: example_dist_def example_tweet_def)
  have l5: "length ?items \<le> 5" by simp
  have a0: "fst (find_relevant_tweets ?ag (lit ''Fed'') 2) =
      map item_text (nearest example_dist ?items 3 2)"
    using find_relevant_tweets_nearest [of ?ag example_dist ?items example_encoder
        "lit ''Fed''" 3 "[]" 2 ?near ?far] h
    by blast
  have a: "fst (find_relevant_tweets ?ag (lit ''Fed'') 2) = [lit ''near'', lit ''mid'']"
    unfolding a0 n v ..
  have b0: "length (fst (find_relevant_tweets ?ag (lit ''Fed'') 2)) = min 2 (length ?items)"
    using find_relevant_tweets_nearest [of ?ag example_dist ?items example_encoder
        "lit ''Fed''" 3 "[]" 2 ?near ?far] h
    by blast
  have b: "length (fst (find_relevant_tweets ?ag (lit ''Fed'') 2)) = min 2 3"
    using b0 by simp
  have d: "example_dist 3 (embedding ?near) \<le> example_dist 3 (embedding ?far)"
    using find_relevant_tweets_nearest [of ?ag example_dist ?items example_encoder
        "lit ''Fed''" 3 "[]" 2 ?near ?far] h m1 m2
    by blast
  have c0: "length (fst (find_relevant_tweets ?ag (lit ''Fed'') 5)) = length ?items"
    using find_relevant_tweets_nearest [of ?ag example_dist ?items example_encoder
        "lit ''Fed''" 3 "[]" 5 ?near ?far] h l5
    by blast
  have c: "length (fst (find_relevant_tweets ?ag (lit ''Fed'') 5)) = 3"
    using c0 by simp
  show ?thesis using h n m1 m2 l5 a b c d by blast
qed

section \<open>Claims about the headline listing\<close>

lemma process_articles_dicts:
  "process_articles (map JDict as) =
     Inr (map (\<lambda>a. \<lparr>title = dict_get a (lit ''title''),
                     description = dict_get a (lit ''description''),
                     url = dict_get a (lit ''url'')\<rparr>) as)"
  by (induction as) simp_all

lemma process_articles_Inr:
  "process_articles arts = Inr ps \<Longrightarrow>
     \<exists>as. arts = map JDict as \<and>
          ps = map (\<lambda>a. \<lparr>title = dict_get a (lit ''title''),
                         description = dict_get a (lit ''description''),
                         url = dict_get a (lit ''url'')\<rparr>) as"
proof (induction arts arbitrary: ps)
  case Nil
  then show ?case by simp
next
  case (Cons x xs)
  from Cons.prems obtain p ps' where p: "process_article x = Inr p"
    "process_articles xs = Inr ps'" "ps = p # ps'"
    by (auto split: sum.splits)
  from p(1) obtain a where a: "x = JDict a"
    "p = \<lparr>title = dict_get a (lit ''title''), description = dict_get a (lit ''description''),
          url = dict_get a (lit ''url'')\<rparr>"
    by (cases x) auto
  from Cons.IH [OF p(2)] obtain as where as: "xs = map JDict as"
    "ps' = map (\<lambda>a. \<lparr>title = dict_get a (lit ''title''),
                      description = dict_get a (lit ''description''),
                      url = dict_get a (lit ''url'')\<rparr>) as"
    by blast
  have "x # xs = map JDict (a # as)" using a(1) as(1) by simp
  moreover have "ps = map (\<lambda>a. \<lparr>title = dict_get a (lit ''title''),
                      description = dict_get a (lit ''description''),
                      url = dict_get a (lit ''url'')\<rparr>) (a # as)"
    using p(3) a(2) as(2) by simp
  ultimately show ?case by (intro exI [of _ "a # as"] conjI)
qed

lemma process_articles_not_dict:
  "x \<in> set arts \<Longrightarrow> (\<nexists>a. x = JDict a) \<Longrightarrow> process_articles arts = Inl Raised"
proof (induction arts)
  case Nil
  then show ?case by simp
next
  case (Cons y ys)
  show ?case
  proof (cases "process_article y")
    case (Inl e)
    then show ?thesis by (cases e) simp
  next
    case (Inr p)
    then have "\<exists>a. y = JDict a" by (cases y) auto
    with Cons.prems have "x \<in> set ys" by auto
    from Cons.IH [OF this Cons.prems(2)] Inr show ?thesis by simp
  qed
qed

text \<open>
  Claim C7. The headline listing gives none when the client is missing, when the call
  raises (a transport or authorization error among them), when the answer is not a
  dictionary whose status is \<open>"ok"\<close>, and when an answer with status \<open>"ok"\<close> is malformed
  so that reading it raises: articles that are null, or an entry that is no dictionary.
  On status \<open>"ok"\<close> with a list of article dictionaries it gives one record per article,
  in the same order, holding that article's title, description and url (\<open>None\<close> for a
  field that is absent); an answer without articles gives the empty list. It never gives a
  part of a list: whenever it gives a list, the status is \<open>"ok"\<close> and there is one record
  for each article of the answer.
\<close>

theorem get_top_headlines_all_or_nothing:
  "(newsapi nf = None \<longrightarrow> get_top_headlines nf req = None) \<and>
   (newsapi nf = Some client \<and> client req = Inl err \<longrightarrow> get_top_headlines nf req = None) \<and>
   (newsapi nf = Some client \<and> client req = Inr answer \<and>
    (\<nexists>d. answer = JDict d \<and> dict_get d (lit ''status'') = JStr (lit ''ok''))
      \<longrightarrow> get_top_headlines nf req = None) \<and>
   (newsapi nf = Some client \<and> client req = Inr (JDict d) \<and>
    dict_get d (lit ''status'') = JStr (lit ''ok'') \<and>
    map_of d (lit ''articles'') = Some (JList (map JDict arts)) \<longrightarrow>
      (\<exists>found. get_top_headlines nf req = Some found \<and> length found = length arts \<and>
         (\<forall>i<length arts.
            title (found ! i) = dict_get (arts ! i) (lit ''title'') \<and>
            description (found ! i) = dict_get (arts ! i) (lit ''description'') \<and>
            url (found ! i) = dict_get (arts ! i) (lit ''url'')))) \<and>
   (newsapi nf = Some client \<and> client req = Inr (JDict d) \<and>
    dict_get d (lit ''status'') = JStr (lit ''ok'') \<and>
    map_of d (lit ''articles'') = None \<longrightarrow> get_top_headlines nf req = Some []) \<and>
   (newsapi nf = Some client \<and> client req = Inr (JDict d) \<and>
    dict_get d (lit ''status'') = JStr (lit ''ok'') \<and>
    (map_of d (lit ''articles'') = Some JNull \<or>
     map_of d (lit ''articles'') = Some (JBool b) \<or>
     map_of d (lit ''articles'') = Some (JNum n)) \<longrightarrow> get_top_headlines nf req = None) \<and>
   (newsapi nf = Some client \<and> client req = Inr (JDict d) \<and>
    dict_get d (lit ''status'') = JStr (lit ''ok'') \<and>
    map_of d (lit ''articles'') = Some (JList entries) \<and>
    x \<in> set entries \<and> (\<nexists>a. x = JDict a) \<longrightarrow> get_top_headlines nf req = None) \<and>
   (get_top_headlines nf req = Some processed \<longrightarrow>
      (\<exists>client d returned as.
         newsapi nf = Some client \<and> client req = Inr (JDict d) \<and>
         dict_get d (lit ''status'') = JStr (lit ''ok'') \<and>
         iterate (case map_of d (lit ''articles'') of None \<Rightarrow> JList [] | Some v \<Rightarrow> v) =
           Inr returned \<and>
         returned = map JDict as \<and>
         processed = map (\<lambda>a. \<lparr>title = dict_get a (lit ''title''),
                                description = dict_get a (lit ''description''),
                                url = dict_get a (lit ''url'')\<rparr>) as))"
proof (intro conjI impI)
  assume "newsapi nf = None"
  then show "get_top_headlines nf req = None" by (simp add: get_top_headlines_def)
next
  assume "newsapi nf = Some client \<and> client req = Inl err"
  then show "get_top_headlines nf req = None" by (simp add: get_top_headlines_def)
next
  assume "newsapi nf = Some client \<and> client req = Inr answer \<and>
    (\<nexists>d. answer = JDict d \<and> dict_get d (lit ''status'') = JStr (lit ''ok''))"
  then show "get_top_headlines nf req = None"
    by (cases answer) (auto simp: get_top_headlines_def)
next
  assume a: "newsapi nf = Some client \<and> client req = Inr (JDict d) \<and>
    dict_get d (lit ''status'') = JStr (lit ''ok'') \<and>
    map_of d (lit ''articles'') = Some (JList (map JDict arts))"
  then have "get_top_headlines nf req =
      Some (map (\<lambda>a. \<lparr>title = dict_get a (lit ''title''),
                      description = dict_get a (lit ''description''),
                      url = dict_get a (lit ''url'')\<rparr>) arts)"
    by (simp add: get_top_headlines_def process_articles_dicts)
  then show "\<exists>found. get_top_headlines nf req = Some found \<and> length found = length arts \<and>
         (\<forall>i<length arts.
            title (found ! i) = dict_get (arts ! i) (lit ''title'') \<and>
            description (found ! i) = dict_get (arts ! i) (lit ''description'') \<and>
            url (found ! i) = dict_get (arts ! i) (lit ''url''))"
    by simp
next
  assume "newsapi nf = Some client \<and> client req = Inr (JDict d) \<and>
    dict_get d (lit ''status'') = JStr (lit ''ok'') \<and>
    map_of d (lit ''articles'') = None"
  then show "get_top_headlines nf req = Some []" by (simp add: get_top_headlines_def)
next
  assume "newsapi nf = Some client \<and> client req = Inr (JDict d) \<and>
    dict_get d (lit ''status'') = JStr (lit ''ok'') \<and>
    (map_of d (lit ''articles'') = Some JNull \<or>
     map_of d (lit ''articles'') = Some (JBool b) \<or>
     map_of d (lit ''articles'') = Some (JNum n))"
  then show "get_top_headlines nf req = None" by (auto simp: get_top_headlines_def)
next
  assume a: "newsapi nf = Some client \<and> client req = Inr (JDict d) \<and>
    dict_get d (lit ''status'') = JStr (lit ''ok'') \<and>
    map_of d (lit ''articles'') = Some (JList entries) \<and>
    x \<in> set entries \<and> (\<nexists>a. x = JDict a)"
  then have "process_articles entries = Inl Raised"
    using process_articles_not_dict [of x entries] by blast
  with a show "get_top_headlines nf req = None" by (simp add: get_top_headlines_def)
next
  assume s: "get_top_headlines nf req = Some processed"
  then obtain client where c: "newsapi nf = Some client"
    by (cases "newsapi nf") (auto simp: get_top_headlines_def)
  from s c obtain answer where an: "client req = Inr answer"
    by (cases "client req") (auto simp: get_top_headlines_def)
  from s c an obtain d where d: "answer = JDict d"
    by (cases answer) (auto simp: get_top_headlines_def)
  from s c an d have ok: "dict_get d (lit ''status'') = JStr (lit ''ok'')"
    by (auto simp: get_top_headlines_def split: if_splits)
  let ?v = "case map_of d (lit ''articles'') of None \<Rightarrow> JList [] | Some v \<Rightarrow> v"
  from s c an d ok obtain returned where r: "iterate ?v = Inr returned"
    by (cases "iterate ?v") (auto simp: get_top_headlines_def)
  from s c an d ok r have "process_articles returned = Inr processed"
    by (cases "process_articles returned") (auto simp: get_top_headlines_def)
  from process_articles_Inr [OF this] obtain as where as: "returned = map JDict as"
    "processed = map (\<lambda>a. \<lparr>title = dict_get a (lit ''title''),
                           description = dict_get a (lit ''description''),
                           url = dict_get a (lit ''url'')\<rparr>) as"
    by blast
  from an d have an': "client req = Inr (JDict d)" by simp
  show "\<exists>client d returned as.
         newsapi nf = Some client \<and> client req = Inr (JDict d) \<and>
         dict_get d (lit ''status'') = JStr (lit ''ok'') \<and>
         iterate (case map_of d (lit ''articles'') of None \<Rightarrow> JList [] | Some v \<Rightarrow> v) =
           Inr returned \<and>
         returned = map JDict as \<and>
         processed = map (\<lambda>a. \<lparr>title = dict_get a (lit ''title''),
                                description = dict_get a (lit ''description''),
                                url = dict_get a (lit ''url'')\<rparr>) as"
    by (intro exI [of _ client] exI [of _ d] exI [of _ returned] exI [of _ as] conjI)
      (rule c an' ok r as)+
qed

theorem get_top_headlines_all_or_nothing_witness:
  "get_top_headlines \<lparr>newsapi = None\<rparr>
     \<lparr>req_q = None, req_sources = None, req_category = Some (lit ''technology''),
      req_language = lit ''en'', req_country = lit ''us'', req_page_size = 10\<rparr> = None \<and>
   get_top_headlines \<lparr>newsapi = Some (\<lambda>r. Inl Raised)\<rparr>
     \<lparr>req_q = None, req_sources = None, req_category = Some (lit ''technology''),
      req_language = lit ''en'', req_country = lit ''us'', req_page_size = 10\<rparr> = None \<and>
   get_top_headlines \<lparr>newsapi = Some (\<lambda>r. Inr (JDict [(lit ''status'', JStr (lit ''error'')),
        (lit ''articles'', JList [JDict [(lit ''title'', JStr (lit ''A''))]])]))\<rparr>
     \<lparr>req_q = None, req_sources = None, req_category = Some (lit ''technology''),
      req_language = lit ''en'', req_country = lit ''us'', req_page_size = 10\<rparr> = None \<and>
   (\<exists>found.
      get_top_headlines \<lparr>newsapi = Some (\<lambda>r. Inr (JDict [(lit ''status'', JStr (lit ''ok'')),
        (lit ''articles'', JList (map JDict
        [[(lit ''title'', JStr (lit ''A'')), (lit ''url'', JStr (lit ''u1'')),
          (lit ''author'', JStr (lit ''x''))],
         [(lit ''title'', JStr (lit ''B'')), (lit ''description'', JNull)]]))]))\<rparr>
     \<lparr>req_q = None, req_sources = None, req_category = Some (lit ''technology''),
      req_language = lit ''en'', req_country = lit ''us'', req_page_size = 10\<rparr> = Some found \<and>
      length found = 2 \<and>
      title (found ! 0) = JStr (lit ''A'') \<and> description (found ! 0) = JNull \<and>
      url (found ! 0) = JStr (lit ''u1'') \<and>
      title (found ! 1) = JStr (lit ''B'') \<and> description (found ! 1) = JNull \<and>
      url (found ! 1) = JNull) \<and>
   get_top_headlines \<lparr>newsapi = Some (\<lambda>r. Inr (JDict [(lit ''status'', JStr (lit ''ok''))]))\<rparr>
     \<lparr>req_q = None, req_sources = None, req_category = Some (lit ''technology''),
      req_language = lit ''en'', req_country = lit ''us'', req_page_size = 10\<rparr> = Some [] \<and>
   get_top_headlines \<lparr>newsapi = Some (\<lambda>r. Inr (JDict [(lit ''status'', JStr (lit ''ok'')), (lit ''articles'', JNull)]))\<rparr>
     \<lparr>req_q = None, req_sources = None, req_category = Some (lit ''technology''),
      req_language = lit ''en'', req_country = lit ''us'', req_page_size = 10\<rparr> = None \<and>
   get_top_headlines \<lparr>newsapi = Some (\<lambda>r. Inr (JDict [(lit ''status'', JStr (lit ''ok'')),
        (lit ''articles'', JList [JDict [(lit ''title'', JStr (lit ''A''))], JNull])]))\<rparr>
     \<lparr>req_q = None, req_sources = None, req_category = Some (lit ''technology''),
      req_language = lit ''en'', req_country = lit ''us'', req_page_size = 10\<rparr> = None"
proof -
  let ?req = "\<lparr>req_q = None, req_sources = None, req_category = Some (lit ''technology''),
      req_language = lit ''en'', req_country = lit ''us'', req_page_size = 10\<rparr>"
  let ?arts = "[[(lit ''title'', JStr (lit ''A'')), (lit ''url'', JStr (lit ''u1'')),
          (lit ''author'', JStr (lit ''x''))],
         [(lit ''title'', JStr (lit ''B'')), (lit ''description'', JNull)]]"
  let ?dbad = "[(lit ''status'', JStr (lit ''error'')),
        (lit ''articles'', JList [JDict [(lit ''title'', JStr (lit ''A''))]])]"
  let ?dgood = "[(lit ''status'', JStr (lit ''ok'')), (lit ''articles'', JList (map JDict ?arts))]"
  let ?dbare = "[(lit ''status'', JStr (lit ''ok''))]"
  let ?dnull = "[(lit ''status'', JStr (lit ''ok'')), (lit ''articles'', JNull)]"
  let ?entries = "[JDict [(lit ''title'', JStr (lit ''A''))], JNull]"
  let ?dmixed = "[(lit ''status'', JStr (lit ''ok'')), (lit ''articles'', JList ?entries)]"
  have a: "get_top_headlines \<lparr>newsapi = None\<rparr> ?req = None"
    by (rule get_top_headlines_all_or_nothing
        [of "\<lparr>newsapi = None\<rparr>" ?req "\<lambda>r. Inl Raised" Raised "JDict ?dbad" ?dbad "[]"
          True 0 "[]" JNull "[]", THEN conjunct1, THEN mp]) simp
  have b: "get_top_headlines \<lparr>newsapi = Some (\<lambda>r. Inl Raised)\<rparr> ?req = None"
    by (rule get_top_headlines_all_or_nothing
        [of "\<lparr>newsapi = Some (\<lambda>r. Inl Raised)\<rparr>" ?req "\<lambda>r. Inl Raised" Raised "JDict ?dbad" ?dbad "[]"
          True 0 "[]" JNull "[]", THEN conjunct2, THEN conjunct1, THEN mp]) simp
  have c: "get_top_headlines \<lparr>newsapi = Some (\<lambda>r. Inr (JDict ?dbad))\<rparr> ?req = None"
    by (rule get_top_headlines_all_or_nothing
        [of "\<lparr>newsapi = Some (\<lambda>r. Inr (JDict ?dbad))\<rparr>" ?req "\<lambda>r. Inr (JDict ?dbad)" Raised "JDict ?dbad" ?dbad "[]"
          True 0 "[]" JNull "[]", THEN conjunct2, THEN conjunct2, THEN conjunct1, THEN mp]) (simp add: dict_get_def lit_def)
  have "\<exists>found.
      get_top_headlines \<lparr>newsapi = Some (\<lambda>r. Inr (JDict ?dgood))\<rparr> ?req = Some found \<and>
      length found = length ?arts \<and>
      (\<forall>i<length ?arts.
         title (found ! i) = dict_get (?arts ! i) (lit ''title'') \<and>
         description (found ! i) = dict_get (?arts ! i) (lit ''description'') \<and>
         url (found ! i) = dict_get (?arts ! i) (lit ''url''))"
    by (rule get_top_headlines_all_or_nothing
        [of "\<lparr>newsapi = Some (\<lambda>r. Inr (JDict ?dgood))\<rparr>" ?req "\<lambda>r. Inr (JDict ?dgood)" Raised "JDict ?dgood" ?dgood ?arts
          True 0 "[]" JNull "[]", THEN conjunct2, THEN conjunct2, THEN conjunct2, THEN conjunct1, THEN mp]) (simp add: dict_get_def lit_def)
  then obtain found where f:
    "get_top_headlines \<lparr>newsapi = Some (\<lambda>r. Inr (JDict ?dgood))\<rparr> ?req = Some found"
    "length found = length ?arts"
    "\<forall>i<length ?arts.
            title (found ! i) = dict_get (?arts ! i) (lit ''title'') \<and>
            description (found ! i) = dict_get (?arts ! i) (lit ''description'') \<and>
            url (found ! i) = dict_get (?arts ! i) (lit ''url'')"
    by blast
  have i0: "title (found ! 0) = JStr (lit ''A'') \<and> description (found ! 0) = JNull \<and>
      url (found ! 0) = JStr (lit ''u1'')"
    using f(3) [rule_format, of 0] by (simp add: dict_get_def lit_def)
  have i1: "title (found ! 1) = JStr (lit ''B'') \<and> description (found ! 1) = JNull \<and>
      url (found ! 1) = JNull"
    using f(3) [rule_format, of 1] by (simp add: dict_get_def lit_def)
  have l2: "length found = 2" using f(2) by simp
  have d: "\<exists>found.
      get_top_headlines \<lparr>newsapi = Some (\<lambda>r. Inr (JDict ?dgood))\<rparr> ?req = Some found \<and>
      length found = 2 \<and>
      title (found ! 0) = JStr (lit ''A'') \<and> description (found ! 0) = JNull \<and>
      url (found ! 0) = JStr (lit ''u1'') \<and>
      title (found ! 1) = JStr (lit ''B'') \<and> description (found ! 1) = JNull \<and>
      url (found ! 1) = JNull"
    using f(1) l2 i0 i1 by blast
  have e: "get_top_headlines \<lparr>newsapi = Some (\<lambda>r. Inr (JDict ?dbare))\<rparr> ?req = Some []"
    by (rule get_top_headlines_all_or_nothing
        [of "\<lparr>newsapi = Some (\<lambda>r. Inr (JDict ?dbare))\<rparr>" ?req "\<lambda>r. Inr (JDict ?dbare)" Raised "JDict ?dbare" ?dbare "[]"
          True 0 "[]" JNull "[]", THEN conjunct2, THEN conjunct2, THEN conjunct2, THEN conjunct2, THEN conjunct1, THEN mp]) (simp add: dict_get_def lit_def)
  have g: "get_top_headlines \<lparr>newsapi = Some (\<lambda>r. Inr (JDict ?dnull))\<rparr> ?req = None"
    by (rule get_top_headlines_all_or_nothing
        [of "\<lparr>newsapi = Some (\<lambda>r. Inr (JDict ?dnull))\<rparr>" ?req "\<lambda>r. Inr (JDict ?dnull)" Raised "JDict ?dnull" ?dnull "[]"
          True 0 "[]" JNull "[]", THEN conjunct2, THEN conjunct2, THEN conjunct2, THEN conjunct2, THEN conjunct2, THEN conjunct1, THEN mp]) (simp add: dict_get_def lit_def)
  have h: "get_top_headlines \<lparr>newsapi = Some (\<lambda>r. Inr (JDict ?dmixed))\<rparr> ?req = None"
    by (rule get_top_headlines_all_or_nothing
        [of "\<lparr>newsapi = Some (\<lambda>r. Inr (JDict ?dmixed))\<rparr>" ?req "\<lambda>r. Inr (JDict ?dmixed)" Raised "JDict ?dmixed" ?dmixed "[]"
          True 0 ?entries JNull "[]", THEN conjunct2, THEN conjunct2, THEN conjunct2, THEN conjunct2, THEN conjunct2, THEN conjunct2, THEN conjunct1, THEN mp]) (simp add: dict_get_def lit_def)
  show ?thesis
    by (intro conjI) (rule a b c d e g h)+
qed

section \<open>Claims about the population step\<close>

lemma str_of_nat_digit: "n < 10 \<Longrightarrow> str_of_nat n = [48 + n]"
  by (subst str_of_nat.simps) simp

lemma str_of_nat_inverse: "foldl (\<lambda>a d. 10 * a + (d - 48)) 0 (str_of_nat n) = n"
proof (induction n rule: str_of_nat.induct)
  case (1 n)
  show ?case
  proof (cases "n < 10")
    case True
    then show ?thesis by (simp add: str_of_nat_digit)
  next
    case False
    then have "str_of_nat n = str_of_nat (n div 10) @ [48 + n mod 10]"
      by (subst str_of_nat.simps) simp
    with False 1 show ?thesis by simp
  qed
qed

lemma tweet_id_inj: "tweet_id i = tweet_id j \<Longrightarrow> i = j"
proof -
  assume "tweet_id i = tweet_id j"
  then have "str_of_nat i = str_of_nat j" by (simp add: tweet_id_def)
  then have "foldl (\<lambda>a d. 10 * a + (d - 48)) 0 (str_of_nat i) =
      foldl (\<lambda>a d. 10 * a + (d - 48)) 0 (str_of_nat j)"
    by simp
  then show "i = j" by (simp add: str_of_nat_inverse)
qed

text \<open>
  Claim C10. A population run that reaches the collection sends one \<open>add\<close> request whose
  ids are \<open>tweet_0\<close>, ..., \<open>tweet_{n-1}\<close> in the order of the loaded texts, with one
  \<open>{"text": tweet}\<close> metadata per text; this does not depend on what the collection
  already holds. Whatever a run sends is an \<open>add\<close> of this form and never an \<open>upsert\<close>.
  Two runs use the same id at every position both have, whatever their texts and
  collections, so a second run adds under ids the first has used. Within a run the ids
  are pairwise different.
\<close>

theorem populate_vector_db_adds_positional_ids:
  "(tweets \<noteq> [] \<and> count coll = Inr present \<and> model tweets = Inr (Some embeddings) \<longrightarrow>
      populate_vector_db (Some coll) tweets model =
        [Add (map tweet_id [0..<length tweets]) embeddings
             (map (\<lambda>tweet. [(lit ''text'', tweet)]) tweets)]) \<and>
   (w \<in> set (populate_vector_db collection tweets model) \<longrightarrow>
      (\<exists>es. w = Add (map (\<lambda>i. lit ''tweet_'' @ str_of_nat i) [0..<length tweets]) es
                    (map (\<lambda>tweet. [(lit ''text'', tweet)]) tweets))) \<and>
   Upsert ids embeddings' metadatas \<notin> set (populate_vector_db collection tweets model) \<and>
   (w \<in> set (populate_vector_db collection tweets model) \<and>
    w' \<in> set (populate_vector_db collection' others model') \<and>
    i < length tweets \<and> i < length others \<longrightarrow>
      (\<exists>ids1 es1 ms1 ids2 es2 ms2.
         w = Add ids1 es1 ms1 \<and> w' = Add ids2 es2 ms2 \<and>
         length ids1 = length tweets \<and> length ids2 = length others \<and>
         ids1 ! i = tweet_id i \<and> ids2 ! i = tweet_id i)) \<and>
   distinct (map tweet_id [0..<length tweets])"
proof -
  have "distinct (map tweet_id [0..<length tweets])"
    by (simp add: distinct_map inj_on_def) (blast dest: tweet_id_inj)
  then show ?thesis
    by (auto simp: populate_vector_db_def tweet_id_def
        split: if_splits option.splits sum.splits)
qed

theorem populate_vector_db_adds_positional_ids_witness:
  "[lit ''a'', lit ''b''] \<noteq> [] \<and>
   count (vector_store example_dist [example_tweet 0 9 ''far'']) = Inr 1 \<and>
   example_encoder [lit ''a'', lit ''b''] = Inr (Some [1, 1]) \<and>
   populate_vector_db (Some (vector_store example_dist [example_tweet 0 9 ''far'']))
     [lit ''a'', lit ''b''] example_encoder =
     [Add [lit ''tweet_0'', lit ''tweet_1''] [1, 1]
          [[(lit ''text'', lit ''a'')], [(lit ''text'', lit ''b'')]]] \<and>
   populate_vector_db (Some (vector_store example_dist [])) [lit ''c'', lit ''d''] example_encoder =
     [Add [lit ''tweet_0'', lit ''tweet_1''] [1, 1]
          [[(lit ''text'', lit ''c'')], [(lit ''text'', lit ''d'')]]] \<and>
   Add [lit ''tweet_0'', lit ''tweet_1''] [1, 1]
       [[(lit ''text'', lit ''a'')], [(lit ''text'', lit ''b'')]]
     \<in> set (populate_vector_db (Some (vector_store example_dist [example_tweet 0 9 ''far'']))
         [lit ''a'', lit ''b''] example_encoder) \<and>
   Add [lit ''tweet_0'', lit ''tweet_1''] [1, 1]
       [[(lit ''text'', lit ''c'')], [(lit ''text'', lit ''d'')]]
     \<in> set (populate_vector_db (Some (vector_store example_dist []))
         [lit ''c'', lit ''d''] example_encoder) \<and>
   (1::nat) < length [lit ''a'', lit ''b''] \<and> (1::nat) < length [lit ''c'', lit ''d''] \<and>
   [lit ''tweet_0'', lit ''tweet_1''] ! 1 = tweet_id 1"
proof -
  let ?full = "vector_store example_dist [example_tweet 0 9 ''far'']"
  let ?fresh = "vector_store example_dist [] :: nat collection"
  let ?w = "Add [lit ''tweet_0'', lit ''tweet_1''] [1, 1]
       [[(lit ''text'', lit ''a'')], [(lit ''text'', lit ''b'')]] :: nat write_request"
  let ?w' = "Add [lit ''tweet_0'', lit ''tweet_1''] [1, 1]
       [[(lit ''text'', lit ''c'')], [(lit ''text'', lit ''d'')]] :: nat write_request"
  have ids: "tweet_id 0 = lit ''tweet_0''" "tweet_id (Suc 0) = lit ''tweet_1''"
    by (simp_all add: tweet_id_def str_of_nat_digit lit_def)
  have h1: "[lit ''a'', lit ''b''] \<noteq> [] \<and> count ?full = Inr 1 \<and>
      example_encoder [lit ''a'', lit ''b''] = Inr (Some [1, 1])"
    by (simp add: vector_store_def example_encoder_def lit_def)
  have h2: "[lit ''c'', lit ''d''] \<noteq> [] \<and> count ?fresh = Inr 0 \<and>
      example_encoder [lit ''c'', lit ''d''] = Inr (Some [1, 1])"
    by (simp add: vector_store_def example_encoder_def lit_def)
  have a: "populate_vector_db (Some ?full) [lit ''a'', lit ''b''] example_encoder = [?w]"
    using populate_vector_db_adds_positional_ids [of "[lit ''a'', lit ''b'']" ?full 1
        example_encoder "[1, 1]" ?w "Some ?full" "[]" "[]" "[]" ?w' "Some ?fresh" "[]"
        example_encoder 1] h1 ids
    by simp
  have b: "populate_vector_db (Some ?fresh) [lit ''c'', lit ''d''] example_encoder = [?w']"
    using populate_vector_db_adds_positional_ids [of "[lit ''c'', lit ''d'']" ?fresh 0
        example_encoder "[1, 1]" ?w' "Some ?fresh" "[]" "[]" "[]" ?w "Some ?full" "[]"
        example_encoder 1] h2 ids
    by simp
  have m: "?w \<in> set (populate_vector_db (Some ?full) [lit ''a'', lit ''b''] example_encoder)"
    "?w' \<in> set (populate_vector_db (Some ?fresh) [lit ''c'', lit ''d''] example_encoder)"
    unfolding a b by simp_all
  have l: "(1::nat) < length [lit ''a'', lit ''b''] \<and> (1::nat) < length [lit ''c'', lit ''d'']"
    by simp
  obtain ids1 es1 ms1 where "?w = Add ids1 es1 ms1" "ids1 ! 1 = tweet_id 1"
    using populate_vector_db_adds_positional_ids [of "[lit ''a'', lit ''b'']" ?full 1
        example_encoder "[1, 1]" ?w "Some ?full" "[]" "[]" "[]" ?w' "Some ?fresh"
        "[lit ''c'', lit ''d'']" example_encoder 1] m l
    by blast
  then have c: "[lit ''tweet_0'', lit ''tweet_1''] ! 1 = tweet_id 1" by auto
  show ?thesis using h1 a b m l c by blast
qed


end
